theory Spec2Isabelle
  imports Main "HOL-Library.Word" "HOL-Library.Sublist"
begin

section \<open>The upload scripts \<open>upload_via_curl.py\<close> and \<open>upload_via_gh.py\<close>\<close>

text \<open>
  Both scripts walk the directory tree under \<open>ROOT = '.'\<close> and, for each file, look the
  file up in the remote repository (\<open>gh api\<close> GET), read it, encode it with base64 and
  write it (PUT), counting successes and errors.  The external world (the directory tree,
  the file contents, the answers of the \<open>gh\<close> and \<open>curl\<close> processes, the standard library's
  \<open>json.loads\<close>, \<open>str.strip\<close> and \<open>urllib.parse.quote\<close>) is a parameter of the model;
  every call the scripts make to it is recorded in a trace of events.
\<close>

subsection \<open>Bytes and base64\<close>

type_synonym byte = "8 word"

definition b64_alphabet :: string where
  "b64_alphabet = ''ABCDEFGHIJKLMNOPQRSTUVWXYZabcdefghijklmnopqrstuvwxyz0123456789+/''"

definition b64char :: "nat \<Rightarrow> char" where
  "b64char i = b64_alphabet ! i"

definition b64val :: "char \<Rightarrow> nat option" where
  "b64val c =
     (if c \<in> set b64_alphabet then Some (length (takeWhile (\<lambda>x. x \<noteq> c) b64_alphabet))
      else None)"

text \<open>
  Modelled from the spec: \<open>base64.b64encode\<close> is the Python standard library's encoder,
  called at \<open>upload_via_curl.py\<close> line 65 and \<open>upload_via_gh.py\<close> line 41; its code is not
  part of the repository.  The spec calls it a reversible text-safe binary-to-text
  encoding (base64).  It is modelled as the standard base64 of RFC 4648 with the
  alphabet above and \<open>=\<close> padding: three bytes become four characters of six bits each.
\<close>

fun b64encode :: "byte list \<Rightarrow> string" where
  "b64encode [] = []"
| "b64encode [a] =
     [b64char (unat a div 4), b64char ((unat a mod 4) * 16), CHR ''='', CHR ''='']"
| "b64encode [a, b] =
     [b64char (unat a div 4), b64char ((unat a mod 4) * 16 + unat b div 16),
      b64char ((unat b mod 16) * 4), CHR ''='']"
| "b64encode (a # b # c # rest) =
     [b64char (unat a div 4), b64char ((unat a mod 4) * 16 + unat b div 16),
      b64char ((unat b mod 16) * 4 + unat c div 64), b64char (unat c mod 64)]
     @ b64encode rest"

text \<open>
  Modelled from the spec: the decoder.  Neither script decodes; the spec's round-trip law
  speaks of the decoding that inverts the encoding.  It is the strict decoder of the same
  RFC: groups of four characters, padding only in the last group, \<open>None\<close> on anything
  else.
\<close>

fun b64decode :: "string \<Rightarrow> byte list option" where
  "b64decode [] = Some []"
| "b64decode (c1 # c2 # c3 # c4 # rest) =
     (if rest = [] \<and> c3 = CHR ''='' \<and> c4 = CHR ''='' then
        (case (b64val c1, b64val c2) of
           (Some p, Some q) \<Rightarrow> Some [of_nat (p * 4 + q div 16)]
         | _ \<Rightarrow> None)
      else if rest = [] \<and> c4 = CHR ''='' then
        (case (b64val c1, b64val c2, b64val c3) of
           (Some p, Some q, Some r) \<Rightarrow>
             Some [of_nat (p * 4 + q div 16), of_nat ((q mod 16) * 16 + r div 4)]
         | _ \<Rightarrow> None)
      else
        (case (b64val c1, b64val c2, b64val c3, b64val c4) of
           (Some p, Some q, Some r, Some s) \<Rightarrow>
             (case b64decode rest of
                Some bs \<Rightarrow>
                  Some (of_nat (p * 4 + q div 16) # of_nat ((q mod 16) * 16 + r div 4)
                        # of_nat ((r mod 4) * 64 + s) # bs)
              | None \<Rightarrow> None)
         | _ \<Rightarrow> None))"
| "b64decode _ = None"


subsection \<open>Python values, as \<open>json.loads\<close> returns them\<close>

text \<open>
  A float is kept as mantissa and exponent (\<open>m * 2 ^ e\<close>), an infinity or a NaN: the
  scripts only test it for truth.  A dict is an association list read with \<open>map_of\<close>.
  The variable \<open>sha\<close> of the scripts holds such a value, \<open>PNone\<close> being Python's \<open>None\<close>.
\<close>

datatype pyfloat = FloatFinite int int | FloatInf bool | FloatNaN

datatype pyval =
    PNone
  | PBool bool
  | PInt int
  | PFloat pyfloat
  | PStr string
  | PList "pyval list"
  | PDict "(string \<times> pyval) list"

datatype pyerror = AttributeError | TypeError | KeyError | OSError

text \<open>The truth value Python's \<open>if sha:\<close> tests.\<close>

fun truthy :: "pyval \<Rightarrow> bool" where
  "truthy PNone = False"
| "truthy (PBool b) = b"
| "truthy (PInt i) = (i \<noteq> 0)"
| "truthy (PFloat (FloatFinite m e)) = (m \<noteq> 0)"
| "truthy (PFloat (FloatInf _)) = True"
| "truthy (PFloat FloatNaN) = True"
| "truthy (PStr s) = (s \<noteq> [])"
| "truthy (PList xs) = (xs \<noteq> [])"
| "truthy (PDict kvs) = (kvs \<noteq> [])"

text \<open>\<open>obj.get(k)\<close>: only a dict has the method; a missing key gives \<open>None\<close>.\<close>

fun py_get :: "pyval \<Rightarrow> string \<Rightarrow> pyerror + pyval" where
  "py_get (PDict kvs) k = Inr (case map_of kvs k of None \<Rightarrow> PNone | Some v \<Rightarrow> v)"
| "py_get _ k = Inl AttributeError"

text \<open>
  \<open>k in obj\<close> for a string \<open>k\<close>: a key of a dict, an element of a list, a substring of a
  string; \<open>TypeError\<close> on the values that are not containers.
\<close>

fun py_in :: "string \<Rightarrow> pyval \<Rightarrow> pyerror + bool" where
  "py_in k (PDict kvs) = Inr (k \<in> fst ` set kvs)"
| "py_in k (PList xs) = Inr (PStr k \<in> set xs)"
| "py_in k (PStr s) = Inr (sublist k s)"
| "py_in k _ = Inl TypeError"

text \<open>\<open>obj[k]\<close> for a string \<open>k\<close>: a dict's value or \<open>KeyError\<close>; \<open>TypeError\<close> elsewhere.\<close>

fun py_getitem :: "pyval \<Rightarrow> string \<Rightarrow> pyerror + pyval" where
  "py_getitem (PDict kvs) k = (case map_of kvs k of None \<Rightarrow> Inl KeyError | Some v \<Rightarrow> Inr v)"
| "py_getitem _ k = Inl TypeError"

subsection \<open>Strings and paths\<close>

definition REPO :: string where
  "REPO = ''dahemar/baptiste2''"

text \<open>\<open>s.split(os.sep)\<close> with \<open>os.sep = '/'\<close>: always at least one part.\<close>

fun split_sep :: "string \<Rightarrow> string list" where
  "split_sep [] = [[]]"
| "split_sep (c # cs) =
     (if c = CHR ''/'' then [] # split_sep cs
      else (case split_sep cs of p # ps \<Rightarrow> (c # p) # ps | [] \<Rightarrow> [[c]]))"

text \<open>\<open>'/'.join(parts)\<close>.\<close>

fun join_sep :: "string list \<Rightarrow> string" where
  "join_sep [] = []"
| "join_sep [p] = p"
| "join_sep (p # q # ps) = p @ CHR ''/'' # join_sep (q # ps)"

text \<open>\<open>os.path.join(a, b)\<close> (posixpath): an absolute \<open>b\<close> replaces \<open>a\<close>.\<close>

definition os_path_join :: "string \<Rightarrow> string \<Rightarrow> string" where
  "os_path_join a b =
     (if b \<noteq> [] \<and> hd b = CHR ''/'' then b
      else if a = [] \<or> last a = CHR ''/'' then a @ b
      else a @ CHR ''/'' # b)"

text \<open>
  \<open>os.path.relpath(fp, ROOT)\<close> with \<open>ROOT = '.'\<close>, for the paths the walk produces
  (relative, under \<open>'.'\<close>, without a \<open>'..'\<close> part): both paths are made absolute against
  the same current directory, which cancels, and normalisation drops the empty and
  the \<open>'.'\<close> parts.
\<close>

definition relpath :: "string \<Rightarrow> string" where
  "relpath fp =
     (let parts = filter (\<lambda>x. x \<noteq> [] \<and> x \<noteq> ''.'') (split_sep fp)
      in if parts = [] then ''.'' else join_sep parts)"

subsection \<open>The directory tree and \<open>os.walk\<close>\<close>

datatype fsnode = File | Dir "(string \<times> fsnode) list"

fun is_dir :: "fsnode \<Rightarrow> bool" where
  "is_dir File = False"
| "is_dir (Dir _) = True"

text \<open>
  \<open>os.walk(top)\<close>, top-down: the triple of a directory, then the walks of its
  subdirectories at \<open>os.path.join(top, name)\<close> (\<open>d\<close> below is \<open>top\<close>).  Neither script prunes \<open>dirnames\<close>, so
  every directory is walked.  On something that is not a directory it yields nothing.
\<close>

fun os_walk :: "string \<Rightarrow> fsnode \<Rightarrow> (string \<times> string list \<times> string list) list" where
  "os_walk d File = []"
| "os_walk d (Dir entries) =
     (d, map fst (filter (\<lambda>e. is_dir (snd e)) entries),
           map fst (filter (\<lambda>e. \<not> is_dir (snd e)) entries))
     # concat (map (\<lambda>e. os_walk (os_path_join d (fst e)) (snd e)) entries)"

subsection \<open>Processes, the environment and the trace\<close>

text \<open>
  The result of \<open>subprocess.run(cmd, capture_output=True, text=True)\<close> is a
  \<open>CompletedProcess\<close>; with \<open>timeout=t\<close> the call can also raise \<open>TimeoutExpired\<close>.
\<close>

record completed =
  returncode :: int
  stdout :: string
  stderr :: string

datatype run_result = Completed completed | TimeoutExpired

text \<open>
  The commands the scripts run:
  \<^item> \<open>AuthToken\<close> is \<open>['gh','auth','token']\<close>;
  \<^item> \<open>ApiGet path\<close> is \<open>['gh','api','/repos/{REPO}/contents/{path}']\<close>;
  \<^item> \<open>ApiPut path fields\<close> is \<open>['gh','api','--method','PUT','/repos/{REPO}/contents/{path}']\<close>
    followed by \<open>'-f', '{key}={value}'\<close> for each field, in order;
  \<^item> \<open>CurlPut token payload url\<close> is \<open>['curl','-s','-X','PUT']+HEADERS+['-d','@/tmp/payload.json',url]\<close>,
    where \<open>HEADERS\<close> carries \<open>Authorization: token {TOKEN}\<close> and the file holds the
    \<open>json.dump\<close> of the dict \<open>payload\<close>, written just before.
  The fields and the payload are the key-value pairs in insertion order.
\<close>

datatype command =
    AuthToken
  | ApiGet string
  | ApiPut string "(string \<times> pyval) list"
  | CurlPut string "(string \<times> pyval) list" string

text \<open>The lines the scripts print, with their parts apart.\<close>

datatype line =
    LineOk string
  | LineFail string string
  | LineReadError string string
  | LineGetTimeout string
  | LineTokenError string
  | LineDone int int

text \<open>
  An event is a call of \<open>subprocess.run\<close> (with the \<open>timeout\<close> argument of the call, if it
  has one), the opening of a file for reading, or a printed line.
\<close>

datatype event = Run command "nat option" | Open string | Print line

text \<open>
  The environment:
  \<^item> what a process answers: \<open>run_timeout\<close> for a call with a timeout, \<open>run_plain\<close> for a
    call without one, which can only complete;
  \<^item> \<open>argv_refused\<close>: whether the operating system refuses the argument list of a
    command, so that \<open>subprocess.run\<close> raises \<open>OSError\<close> (argument list too long) and no
    process is started.  Only \<open>gh_put\<close> of \<open>upload_via_gh.py\<close> consults it: it passes the
    whole base64 text of the file as an argument.  The other commands carry a path, a
    URL or a token;
  \<^item> what reading a file gives (\<open>Inl\<close> the text of the exception);
  \<^item> \<open>json.loads\<close> (\<open>None\<close> when it raises), \<open>str.strip()\<close> (written \<open>strip env s\<close>),
    \<open>urllib.parse.quote(s, safe)\<close> (written \<open>quote env safe s\<close>) and
    \<open>os.path.abspath(__file__)\<close>.
  Apart from the refused argument list, the model describes the runs in which the
  executables \<open>gh\<close> and \<open>curl\<close> can be started, every call without a timeout returns and
  the temporary file \<open>/tmp/payload.json\<close> can be written.
\<close>

record env =
  run_timeout :: "command \<Rightarrow> nat \<Rightarrow> run_result"
  run_plain :: "command \<Rightarrow> completed"
  argv_refused :: "command \<Rightarrow> bool"
  read_file :: "string \<Rightarrow> string + byte list"
  json_loads :: "string \<Rightarrow> pyval option"
  strip :: "string \<Rightarrow> string"
  quote :: "string \<Rightarrow> string \<Rightarrow> string"
  script_abspath :: string

text \<open>
  The two counters of the scripts, the trace so far and the exception that went
  uncaught, if one did: the interpreter then leaves the loops, prints a traceback and
  exits with status 1.
\<close>

record state =
  success :: int
  errors :: int
  trace :: "event list"
  raised :: "pyerror option"

definition init_state :: state where
  "init_state = \<lparr>success = 0, errors = 0, trace = [], raised = None\<rparr>"

definition emit :: "event list \<Rightarrow> state \<Rightarrow> state" where
  "emit es st = st\<lparr>trace := trace st @ es\<rparr>"

text \<open>\<open>success+=1\<close> and \<open>errors+=1\<close>.\<close>

definition inc_success :: "state \<Rightarrow> state" where
  "inc_success st = st\<lparr>success := success st + 1\<rparr>"

definition inc_errors :: "state \<Rightarrow> state" where
  "inc_errors st = st\<lparr>errors := errors st + 1\<rparr>"

text \<open>What a run of a script leaves: the trace and the exit status.\<close>

record outcome =
  events :: "event list"
  exit_code :: int

definition ROOT :: string where
  "ROOT = ''.''"

subsection \<open>\<open>upload_via_curl.py\<close>\<close>

text \<open>\<open>gh_get\<close> (lines 8 to 14): a timeout becomes a result with \<open>returncode=2\<close>.\<close>

definition curl_gh_get :: "env \<Rightarrow> string \<Rightarrow> state \<Rightarrow> completed \<times> state" where
  "curl_gh_get env path st =
     (case run_timeout env (ApiGet path) 60 of
        Completed p \<Rightarrow> (p, emit [Run (ApiGet path) (Some 60)] st)
      | TimeoutExpired \<Rightarrow>
          (\<lparr>returncode = 2, stdout = [], stderr = ''timeout''\<rparr>,
           emit [Run (ApiGet path) (Some 60), Print (LineGetTimeout path)] st))"

text \<open>
  \<open>get_token\<close> (lines 16 to 25): \<open>Inl\<close> is the status of \<open>sys.exit\<close>, \<open>Inr\<close> the token.
\<close>

definition get_token :: "env \<Rightarrow> (int + string) \<times> event list" where
  "get_token env =
     (case run_timeout env AuthToken 10 of
        TimeoutExpired \<Rightarrow>
          (Inl 2, [Run AuthToken (Some 10),
                   Print (LineTokenError ''Could not get gh token: timeout'')])
      | Completed p \<Rightarrow>
          if returncode p \<noteq> 0 then
            (Inl 2, [Run AuthToken (Some 10), Print (LineTokenError ''Could not get gh token'')])
          else (Inr (strip env (stdout p)), [Run AuthToken (Some 10)]))"

text \<open>Lines 50 to 56: the value of \<open>sha\<close> after the lookup \<open>p\<close>.\<close>

definition curl_sha :: "env \<Rightarrow> completed \<Rightarrow> pyval" where
  "curl_sha env p =
     (if returncode p = 0 then
        (case json_loads env (stdout p) of
           None \<Rightarrow> PNone
         | Some obj \<Rightarrow> (case py_get obj ''sha'' of Inl _ \<Rightarrow> PNone | Inr v \<Rightarrow> v))
      else PNone)"

text \<open>Lines 66 to 68: the dict \<open>payload\<close>.\<close>

definition curl_payload :: "string \<Rightarrow> string \<Rightarrow> pyval \<Rightarrow> (string \<times> pyval) list" where
  "curl_payload rel content_b64 sha =
     [(''message'', PStr (''chore: add '' @ rel @ '' via API'')), (''content'', PStr content_b64)]
     @ (if truthy sha then [(''sha'', sha)] else [])"

text \<open>Lines 73 to 75: the URL, each part of \<open>rel\<close> quoted with \<open>safe=''\<close>.\<close>

definition curl_url :: "env \<Rightarrow> string \<Rightarrow> string" where
  "curl_url env rel =
     ''https://api.github.com/repos/'' @ REPO @ ''/contents/''
     @ join_sep (map (quote env []) (split_sep rel))"

text \<open>Lines 77 to 97: the PUT and the check of its answer.\<close>

definition curl_put :: "env \<Rightarrow> string \<Rightarrow> string \<Rightarrow> (string \<times> pyval) list \<Rightarrow> state \<Rightarrow> state" where
  "curl_put env token rel payload st =
     (let cmd = CurlPut token payload (curl_url env rel) in
      case run_timeout env cmd 120 of
        TimeoutExpired \<Rightarrow>
          inc_errors (emit [Run cmd (Some 120), Print (LineFail rel ''curl timeout'')] st)
      | Completed q \<Rightarrow>
          if returncode q = 0 then
            (case json_loads env (stdout q) of
               None \<Rightarrow>
                 inc_errors (emit [Run cmd (Some 120), Print (LineFail rel ''invalid response'')] st)
             | Some resp \<Rightarrow>
                 (case py_in ''content'' resp of
                    Inr True \<Rightarrow> inc_success (emit [Run cmd (Some 120), Print (LineOk rel)] st)
                  | Inr False \<Rightarrow>
                      inc_errors
                        (emit [Run cmd (Some 120), Print (LineFail rel (strip env (stdout q)))] st)
                  | Inl _ \<Rightarrow>
                      inc_errors
                        (emit [Run cmd (Some 120), Print (LineFail rel ''invalid response'')] st)))
          else
            inc_errors (emit [Run cmd (Some 120), Print (LineFail rel (strip env (stderr q)))] st))"

text \<open>Lines 39 to 46: the four \<open>continue\<close> checks on \<open>rel\<close>.\<close>

definition curl_excluded :: "string \<Rightarrow> bool" where
  "curl_excluded rel =
     (if prefix ''astro-app/.git-submodule-backup'' rel then True
      else if prefix ''.video_push_logs'' rel then True
      else if prefix ''astro-app/.astro'' rel then True
      else if suffix ''.DS_Store'' rel then True
      else False)"

text \<open>Lines 36 to 97: the body of the inner loop, for the file \<open>fname\<close> of \<open>dirpath\<close>.\<close>

definition curl_file :: "env \<Rightarrow> string \<Rightarrow> string \<Rightarrow> state \<Rightarrow> string \<Rightarrow> state" where
  "curl_file env token dirpath st fname =
     (let fp = os_path_join dirpath fname;
          rel = relpath fp
      in if curl_excluded rel then st
         else
           let api_path = quote env ''/'' rel;
               (p, st1) = curl_gh_get env api_path st;
               sha = curl_sha env p
           in case read_file env fp of
                Inl e \<Rightarrow> inc_errors (emit [Open fp, Print (LineReadError rel e)] st1)
              | Inr b \<Rightarrow>
                  let content_b64 = b64encode b;
                      payload = curl_payload rel content_b64 sha
                  in curl_put env token rel payload (emit [Open fp] st1))"

text \<open>Lines 32 to 35: the body of the outer loop, for one triple of \<open>os.walk\<close>.\<close>

definition curl_dir :: "env \<Rightarrow> string \<Rightarrow> state \<Rightarrow> string \<times> string list \<times> string list \<Rightarrow> state" where
  "curl_dir env token st triple =
     (case triple of (dirpath, dirnames, filenames) \<Rightarrow>
        if ''.git'' \<in> set (split_sep dirpath) then st
        else foldl (curl_file env token dirpath) st filenames)"

text \<open>Lines 30 to 97: the counters start at zero, then the loops.\<close>

definition curl_loop :: "env \<Rightarrow> string \<Rightarrow> fsnode \<Rightarrow> state" where
  "curl_loop env token tree = foldl (curl_dir env token) init_state (os_walk ROOT tree)"

text \<open>The whole script: the token first (line 27), the loops, the summary and the exit.\<close>

definition curl_main :: "env \<Rightarrow> fsnode \<Rightarrow> outcome" where
  "curl_main env tree =
     (case get_token env of
        (Inl status, es) \<Rightarrow> \<lparr>events = es, exit_code = status\<rparr>
      | (Inr token, es) \<Rightarrow>
          let st = curl_loop env token tree
          in \<lparr>events = es @ trace st @ [Print (LineDone (success st) (errors st))],
              exit_code = (if errors st > 0 then 2 else 0)\<rparr>)"

subsection \<open>\<open>upload_via_gh.py\<close>\<close>

text \<open>
  \<open>gh_get\<close> (lines 8 to 11) and \<open>gh_put\<close> (lines 13 to 18): no timeout.  The argument
  list of \<open>gh_put\<close> holds the content of the file; when the operating system refuses it,
  \<open>subprocess.run\<close> raises \<open>OSError\<close>, which nothing catches: there is no answer (\<open>None\<close>).
\<close>

definition gh_gh_get :: "env \<Rightarrow> string \<Rightarrow> state \<Rightarrow> completed \<times> state" where
  "gh_gh_get env path st = (run_plain env (ApiGet path), emit [Run (ApiGet path) None] st)"

definition gh_put_fields :: "string \<Rightarrow> string \<Rightarrow> pyval \<Rightarrow> (string \<times> pyval) list" where
  "gh_put_fields message content_b64 sha =
     [(''message'', PStr message), (''content'', PStr content_b64)]
     @ (if truthy sha then [(''sha'', sha)] else [])"

definition gh_put ::
  "env \<Rightarrow> string \<Rightarrow> string \<Rightarrow> string \<Rightarrow> pyval \<Rightarrow> state \<Rightarrow> completed option \<times> state" where
  "gh_put env path message content_b64 sha st =
     (let cmd = ApiPut path (gh_put_fields message content_b64 sha)
      in if argv_refused env cmd then (None, (emit [Run cmd None] st)\<lparr>raised := Some OSError\<rparr>)
         else (Some (run_plain env cmd), emit [Run cmd None] st))"

text \<open>Lines 44 to 51: the value of \<open>sha\<close> after the lookup \<open>p\<close>.\<close>

definition gh_sha :: "env \<Rightarrow> completed \<Rightarrow> pyval" where
  "gh_sha env p =
     (if returncode p = 0 then
        (case json_loads env (stdout p) of
           None \<Rightarrow> PNone
         | Some obj \<Rightarrow>
             (case py_in ''sha'' obj of
                Inl _ \<Rightarrow> PNone
              | Inr False \<Rightarrow> PNone
              | Inr True \<Rightarrow> (case py_getitem obj ''sha'' of Inl _ \<Rightarrow> PNone | Inr v \<Rightarrow> v)))
      else PNone)"

text \<open>
  Lines 27 to 60: the body of the inner loop.  When \<open>gh_put\<close> raises, the iteration ends
  there: nothing is printed and no counter moves.
\<close>

definition gh_file :: "env \<Rightarrow> string \<Rightarrow> state \<Rightarrow> string \<Rightarrow> state" where
  "gh_file env dirpath st fname =
     (let fp = os_path_join dirpath fname
      in if fp = script_abspath env then st
         else
           let rel = relpath fp;
               api_path = quote env ''/'' rel
           in case read_file env fp of
                Inl e \<Rightarrow> inc_errors (emit [Open fp, Print (LineReadError rel e)] st)
              | Inr data \<Rightarrow>
                  let content_b64 = b64encode data;
                      (p, st1) = gh_gh_get env api_path (emit [Open fp] st);
                      sha = gh_sha env p;
                      msg = ''chore: add '' @ rel @ '' via API'';
                      (r, st2) = gh_put env api_path msg content_b64 sha st1
                  in case r of
                       None \<Rightarrow> st2
                     | Some q \<Rightarrow>
                         if returncode q = 0 then inc_success (emit [Print (LineOk rel)] st2)
                         else inc_errors (emit [Print (LineFail rel (strip env (stderr q)))] st2))"

text \<open>
  A \<open>for\<close> loop whose body can leave an exception uncaught: the loop ends at the first
  iteration that does.
\<close>

fun for_loop :: "(state \<Rightarrow> 'a \<Rightarrow> state) \<Rightarrow> state \<Rightarrow> 'a list \<Rightarrow> state" where
  "for_loop body st [] = st"
| "for_loop body st (x # xs) =
     (let st' = body st x in if raised st' \<noteq> None then st' else for_loop body st' xs)"

definition gh_dir :: "env \<Rightarrow> state \<Rightarrow> string \<times> string list \<times> string list \<Rightarrow> state" where
  "gh_dir env st triple =
     (case triple of (dirpath, dirnames, filenames) \<Rightarrow>
        if ''.git'' \<in> set (split_sep dirpath) then st
        else for_loop (gh_file env dirpath) st filenames)"

definition gh_loop :: "env \<Rightarrow> fsnode \<Rightarrow> state" where
  "gh_loop env tree = for_loop (gh_dir env) init_state (os_walk ROOT tree)"

text \<open>
  The whole script: after the loops the summary and the exit, unless an exception went
  uncaught: then there is no summary and the status is 1.
\<close>

definition gh_main :: "env \<Rightarrow> fsnode \<Rightarrow> outcome" where
  "gh_main env tree =
     (let st = gh_loop env tree
      in case raised st of
           Some e \<Rightarrow> \<lparr>events = trace st, exit_code = 1\<rparr>
         | None \<Rightarrow>
             \<lparr>events = trace st @ [Print (LineDone (success st) (errors st))],
              exit_code = (if errors st > 0 then 2 else 0)\<rparr>)"

subsection \<open>Notions the properties speak of\<close>

text \<open>The write requests (PUT), the lookups and the result lines of a trace.\<close>

fun is_put :: "event \<Rightarrow> bool" where
  "is_put (Run (ApiPut _ _) _) = True"
| "is_put (Run (CurlPut _ _ _) _) = True"
| "is_put _ = False"

fun put_payload :: "event \<Rightarrow> (string \<times> pyval) list option" where
  "put_payload (Run (ApiPut _ kvs) _) = Some kvs"
| "put_payload (Run (CurlPut _ payload _) _) = Some payload"
| "put_payload _ = None"

definition put_payloads :: "event list \<Rightarrow> (string \<times> pyval) list list" where
  "put_payloads es = List.map_filter put_payload es"

fun is_result :: "event \<Rightarrow> bool" where
  "is_result (Print (LineOk _)) = True"
| "is_result (Print (LineFail _ _)) = True"
| "is_result (Print (LineReadError _ _)) = True"
| "is_result _ = False"

fun is_failure :: "event \<Rightarrow> bool" where
  "is_failure (Print (LineFail _ _)) = True"
| "is_failure (Print (LineReadError _ _)) = True"
| "is_failure _ = False"

text \<open>The relative path a result line names.\<close>

fun result_rel :: "event \<Rightarrow> string option" where
  "result_rel (Print (LineOk rel)) = Some rel"
| "result_rel (Print (LineFail rel _)) = Some rel"
| "result_rel (Print (LineReadError rel _)) = Some rel"
| "result_rel _ = None"

text \<open>
  The token a lookup returned: the lookup completed with status 0, its output is a JSON
  object, and the object's \<open>sha\<close> is a true value.
\<close>

definition lookup_token :: "env \<Rightarrow> run_result \<Rightarrow> pyval option" where
  "lookup_token env r =
     (case r of
        TimeoutExpired \<Rightarrow> None
      | Completed c \<Rightarrow>
          if returncode c = 0 then
            (case json_loads env (stdout c) of
               Some (PDict kvs) \<Rightarrow>
                 (case map_of kvs ''sha'' of
                    Some t \<Rightarrow> if truthy t then Some t else None
                  | None \<Rightarrow> None)
             | _ \<Rightarrow> None)
          else None)"

text \<open>
  Every file under a directory, as the pair of its directory's path and its name: the
  files of the directory itself, then those of each subdirectory.
\<close>

fun files_under :: "string \<Rightarrow> fsnode \<Rightarrow> (string \<times> string) list" where
  "files_under d File = []"
| "files_under d (Dir entries) =
     map (\<lambda>e. (d, fst e)) (filter (\<lambda>e. \<not> is_dir (snd e)) entries)
     @ concat (map (\<lambda>e. files_under (os_path_join d (fst e)) (snd e)) entries)"





text \<open>The files the nested loops of the scripts reach, in order.\<close>

definition walk_files :: "fsnode \<Rightarrow> (string \<times> string) list" where
  "walk_files tree =
     concat (map (\<lambda>(dirpath, dirnames, filenames). map (Pair dirpath) filenames)
       (os_walk ROOT tree))"

text \<open>The files a script passes over with \<open>continue\<close>.\<close>

definition curl_skipped :: "string \<times> string \<Rightarrow> bool" where
  "curl_skipped df =
     (''.git'' \<in> set (split_sep (fst df))
      \<or> curl_excluded (relpath (os_path_join (fst df) (snd df))))"

definition gh_skipped :: "env \<Rightarrow> string \<times> string \<Rightarrow> bool" where
  "gh_skipped env df =
     (''.git'' \<in> set (split_sep (fst df))
      \<or> os_path_join (fst df) (snd df) = script_abspath env)"

text \<open>The events of one iteration of the inner loop, and what it adds to the counters.\<close>

definition curl_iter :: "env \<Rightarrow> string \<Rightarrow> string \<times> string \<Rightarrow> state" where
  "curl_iter env token df = curl_file env token (fst df) init_state (snd df)"

definition gh_iter :: "env \<Rightarrow> string \<times> string \<Rightarrow> state" where
  "gh_iter env df = gh_file env (fst df) init_state (snd df)"

fun is_lookup_of :: "string \<Rightarrow> event \<Rightarrow> bool" where
  "is_lookup_of api (Run (ApiGet path) _) = (path = api)"
| "is_lookup_of api _ = False"

text \<open>
  In a list of events, every write request comes after a lookup of the path \<open>api\<close>
  (\<open>seen\<close> says whether one has come already).
\<close>

fun lookup_before_put :: "string \<Rightarrow> bool \<Rightarrow> event list \<Rightarrow> bool" where
  "lookup_before_put api seen [] = True"
| "lookup_before_put api seen (e # es) =
     (if is_put e then seen \<and> lookup_before_put api seen es
      else lookup_before_put api (seen \<or> is_lookup_of api e) es)"

text \<open>
  Adding the counters and the trace of one state to another; an exception of the second
  stays.
\<close>

definition state_add :: "state \<Rightarrow> state \<Rightarrow> state" where
  "state_add st d =
     \<lparr>success = success st + success d, errors = errors st + errors d,
      trace = trace st @ trace d,
      raised = (case raised d of None \<Rightarrow> raised st | Some e \<Rightarrow> Some e)\<rparr>"

text \<open>
  The iteration of a file of \<open>upload_via_gh.py\<close> ends with an uncaught exception; the
  elements of a list up to the first one with a property, that one included.
\<close>

definition gh_raises :: "env \<Rightarrow> string \<times> string \<Rightarrow> bool" where
  "gh_raises env df = (raised (gh_iter env df) \<noteq> None)"

fun up_to_first :: "('a \<Rightarrow> bool) \<Rightarrow> 'a list \<Rightarrow> 'a list" where
  "up_to_first P [] = []"
| "up_to_first P (x # xs) = (if P x then [x] else x # up_to_first P xs)"

text \<open>
  The files the run of \<open>upload_via_gh.py\<close> reaches: those it does not skip, up to the
  first whose iteration ends with an uncaught exception.
\<close>

definition gh_reached :: "env \<Rightarrow> fsnode \<Rightarrow> (string \<times> string) list" where
  "gh_reached env tree =
     up_to_first (gh_raises env) (filter (\<lambda>df. \<not> gh_skipped env df) (files_under ROOT tree))"

text \<open>
  In the run of \<open>upload_via_gh.py\<close> on the tree the operating system accepts the
  argument list of every write: no iteration ends with an uncaught exception.
\<close>

definition gh_returns :: "env \<Rightarrow> fsnode \<Rightarrow> bool" where
  "gh_returns env tree =
     (\<forall>df \<in> set (filter (\<lambda>df. \<not> gh_skipped env df) (files_under ROOT tree)).
        \<not> gh_raises env df)"


text \<open>The runs of the authentication helper \<open>gh auth token\<close>.\<close>

fun is_auth :: "event \<Rightarrow> bool" where
  "is_auth (Run AuthToken _) = True"
| "is_auth _ = False"

text \<open>A process run is bounded when its call has a \<open>timeout\<close> argument.\<close>

fun has_timeout :: "event \<Rightarrow> bool" where
  "has_timeout (Run _ t) = (t \<noteq> None)"
| "has_timeout _ = True"

fun no_timeout :: "event \<Rightarrow> bool" where
  "no_timeout (Run _ t) = (t = None)"
| "no_timeout _ = True"

text \<open>The timeouts of \<open>upload_via_curl.py\<close>, in seconds, by the kind of call.\<close>

fun curl_timeout_ok :: "event \<Rightarrow> bool" where
  "curl_timeout_ok (Run AuthToken t) = (t = Some 10)"
| "curl_timeout_ok (Run (ApiGet _) t) = (t = Some 60)"
| "curl_timeout_ok (Run (CurlPut _ _ _) t) = (t = Some 120)"
| "curl_timeout_ok (Run (ApiPut _ _) t) = False"
| "curl_timeout_ok _ = True"

text \<open>
  The marker of a stored object: the body of the answer is a JSON object with a
  \<open>content\<close> field.
\<close>

definition has_marker :: "env \<Rightarrow> string \<Rightarrow> bool" where
  "has_marker env body =
     (case json_loads env body of
        Some (PDict kvs) \<Rightarrow> ''content'' \<in> fst ` set kvs
      | _ \<Rightarrow> False)"

subsection \<open>A sample run\<close>

text \<open>
  A tree and an environment to run the scripts on: \<open>a.txt\<close> is new, \<open>b.bin\<close> exists with
  the token \<open>T1\<close>, the lookup of \<open>sub/c.txt\<close> times out and its write fails, \<open>sub/d.txt\<close>
  cannot be read, \<open>sub/.git\<close> is a file (as in a submodule checkout) and the write of it
  with curl is answered without the marker.  The sample \<open>json.loads\<close> knows the three
  bodies that occur; the names need no quoting; the texts of the sample hold ASCII
  only, where \<open>str.strip()\<close> drops the characters of \<open>ex_space\<close> at both ends.  The
  operating system is Linux: \<open>execve\<close> refuses an argument of 131072 bytes or more
  (\<open>MAX_ARG_STRLEN\<close>, the final NUL counted), and the one argument that can be so long is
  \<open>content=...\<close>.
\<close>

definition ex_tree :: fsnode where
  "ex_tree =
     Dir [(''a.txt'', File), (''b.bin'', File), (''.DS_Store'', File),
          (''.git'', Dir [(''config'', File)]),
          (''sub'', Dir [(''.git'', File), (''c.txt'', File), (''d.txt'', File)])]"

definition ex_loads :: "string \<Rightarrow> pyval option" where
  \<open>ex_loads s =
     (if s = ''{"sha":"T1"}'' then Some (PDict [(''sha'', PStr ''T1'')])
      else if s = ''{"content":{}}'' then Some (PDict [(''content'', PDict [])])
      else if s = ''{"message":"Conflict"}'' then Some (PDict [(''message'', PStr ''Conflict'')])
      else None)\<close>

definition ex_answer :: "command \<Rightarrow> run_result" where
  \<open>ex_answer cmd =
     (case cmd of
        AuthToken \<Rightarrow> Completed \<lparr>returncode = 0, stdout = ''gho_abc'', stderr = []\<rparr>
      | ApiGet path \<Rightarrow>
          if path = ''b.bin'' then
            Completed \<lparr>returncode = 0, stdout = ''{"sha":"T1"}'', stderr = []\<rparr>
          else if path = ''sub/c.txt'' then TimeoutExpired
          else Completed \<lparr>returncode = 1, stdout = [], stderr = ''Not Found''\<rparr>
      | ApiPut path kvs \<Rightarrow>
          if path = ''sub/c.txt'' then
            Completed \<lparr>returncode = 1, stdout = [], stderr = ''Conflict ''\<rparr>
          else Completed \<lparr>returncode = 0, stdout = ''{"message":"Conflict"}'', stderr = []\<rparr>
      | CurlPut token payload url \<Rightarrow>
          if url = ''https://api.github.com/repos/dahemar/baptiste2/contents/sub/c.txt'' then
            TimeoutExpired
          else if url = ''https://api.github.com/repos/dahemar/baptiste2/contents/sub/.git'' then
            Completed \<lparr>returncode = 0, stdout = ''{"message":"Conflict"}'', stderr = []\<rparr>
          else Completed \<lparr>returncode = 0, stdout = ''{"content":{}}'', stderr = []\<rparr>)\<close>

definition ex_space :: "char \<Rightarrow> bool" where
  "ex_space c = (c \<in> set [CHR '' '', CHR 0x09, CHR 0x0A, CHR 0x0B, CHR 0x0C, CHR 0x0D,
                           CHR 0x1C, CHR 0x1D, CHR 0x1E, CHR 0x1F])"

definition ex_strip :: "string \<Rightarrow> string" where
  "ex_strip s = rev (dropWhile ex_space (rev (dropWhile ex_space s)))"

definition linux_refuses :: "command \<Rightarrow> bool" where
  "linux_refuses cmd =
     (case cmd of
        ApiPut path kvs \<Rightarrow>
          (case map_of kvs ''content'' of
             Some (PStr c) \<Rightarrow> (131072 :: int) \<le> int (length (''content='' @ c))
           | _ \<Rightarrow> False)
      | _ \<Rightarrow> False)"

definition ex_env :: env where
  "ex_env =
     \<lparr>run_timeout = (\<lambda>cmd t. ex_answer cmd),
      run_plain = (\<lambda>cmd. case ex_answer cmd of
                     Completed c \<Rightarrow> c
                   | TimeoutExpired \<Rightarrow> \<lparr>returncode = 1, stdout = [], stderr = ''Not Found''\<rparr>),
      argv_refused = linux_refuses,
      read_file = (\<lambda>fp. if fp = ''./a.txt'' then Inr [0x68, 0x69]
                         else if fp = ''./sub/d.txt'' then Inl ''Permission denied''
                         else Inr [0xFF]),
      json_loads = ex_loads,
      strip = ex_strip,
      quote = (\<lambda>safe s. s),
      script_abspath = ''/home/user/site/upload_via_gh.py''\<rparr>"

text \<open>
  A second sample: a directory with the one file \<open>big.bin\<close> of 98296 zero bytes, in the
  same environment.
\<close>

definition big_tree :: fsnode where
  "big_tree = Dir [(''big.bin'', File)]"

definition big_content :: "byte list" where
  "big_content = replicate 98296 0"

definition big_env :: env where
  "big_env = ex_env\<lparr>read_file := \<lambda>fp. Inr big_content\<rparr>"

section \<open>Properties\<close>

subsection \<open>Base64\<close>

lemma takeWhile_nth_distinct:
  "distinct xs \<Longrightarrow> i < length xs \<Longrightarrow> length (takeWhile (\<lambda>x. x \<noteq> xs ! i) xs) = i"
proof (induction xs arbitrary: i)
  case Nil
  then show ?case by simp
next
  case (Cons a xs)
  show ?case
  proof (cases i)
    case 0
    then show ?thesis by simp
  next
    case (Suc j)
    with Cons.prems have "a \<noteq> xs ! j" by auto
    with Suc Cons show ?thesis by simp
  qed
qed

lemma distinct_b64_alphabet: "distinct b64_alphabet"
  by (simp add: b64_alphabet_def)

lemma length_b64_alphabet: "length b64_alphabet = 64"
  by (simp add: b64_alphabet_def)

lemma b64val_b64char: "i < 64 \<Longrightarrow> b64val (b64char i) = Some i"
  unfolding b64val_def b64char_def
  using takeWhile_nth_distinct [OF distinct_b64_alphabet, of i]
  by (simp add: length_b64_alphabet)

lemma pad_notin_alphabet: "CHR ''='' \<notin> set b64_alphabet"
  by (simp add: b64_alphabet_def)

lemma b64char_not_pad: "i < 64 \<Longrightarrow> b64char i \<noteq> CHR ''=''"
  unfolding b64char_def
  using pad_notin_alphabet nth_mem [of i b64_alphabet]
  by (metis length_b64_alphabet)

lemma unat_byte_lt: "unat (a :: byte) < 256"
  using unsigned_less [of a] by simp

lemma sextet_bounds:
  fixes x y z :: nat
  assumes "x < 256" "y < 256" "z < 256"
  shows "x div 4 < 64" "(x mod 4) * 16 < 64" "(x mod 4) * 16 + y div 16 < 64"
    "(y mod 16) * 4 < 64" "(y mod 16) * 4 + z div 64 < 64" "z mod 64 < 64"
  using assms by simp_all

lemma regroup1:
  "(x::nat) div 4 * 4 + ((x mod 4) * 16 + y div 16) div 16 = x" if "y < 256"
  using that by simp

lemma regroup2: "((x mod 4) * 16 + y div 16) mod 16 * 16 + ((y mod 16) * 4 + z div 64) div 4 = (y::nat)"
  if "y < 256" "z < 256"
  using that by simp

lemma regroup3: "((y mod 16) * 4 + z div 64) mod 4 * 64 + z mod 64 = (z::nat)"
  if "z < 256"
  using that by simp

lemma regroup1_pad: "(x::nat) div 4 * 4 + ((x mod 4) * 16) div 16 = x" 
  by simp

lemma regroup2_pad: "((x mod 4) * 16 + y div 16) mod 16 * 16 + ((y mod 16) * 4) div 4 = (y::nat)"
  if "y < 256" 
  using that by simp


lemma val_sextets:
  fixes a b c :: byte
  shows "b64val (b64char (unat a div 4)) = Some (unat a div 4)"
    and "b64val (b64char ((unat a mod 4) * 16)) = Some ((unat a mod 4) * 16)"
    and "b64val (b64char ((unat a mod 4) * 16 + unat b div 16)) = Some ((unat a mod 4) * 16 + unat b div 16)"
    and "b64val (b64char ((unat b mod 16) * 4)) = Some ((unat b mod 16) * 4)"
    and "b64val (b64char ((unat b mod 16) * 4 + unat c div 64)) = Some ((unat b mod 16) * 4 + unat c div 64)"
    and "b64val (b64char (unat c mod 64)) = Some (unat c mod 64)"
  using sextet_bounds [OF unat_byte_lt [of a] unat_byte_lt [of b] unat_byte_lt [of c]]
  by (simp_all only: b64val_b64char)

lemma not_pad_sextets:
  fixes b c :: byte
  shows "b64char ((unat b mod 16) * 4 + unat c div 64) \<noteq> CHR ''=''"
    and "b64char (unat c mod 64) \<noteq> CHR ''=''"
    and "b64char ((unat b mod 16) * 4) \<noteq> CHR ''=''"
  using sextet_bounds [OF unat_byte_lt [of b] unat_byte_lt [of b] unat_byte_lt [of c]]
  by (simp_all only: b64char_not_pad not_False_eq_True)

lemma byte1: "(of_nat (unat a div 4 * 4 + ((unat a mod 4) * 16 + unat b div 16) div 16) :: byte) = a"
  for a b :: byte
  using regroup1 [OF unat_byte_lt [of b], of "unat a"] by simp

lemma byte2: "(of_nat (((unat a mod 4) * 16 + unat b div 16) mod 16 * 16 + ((unat b mod 16) * 4 + unat c div 64) div 4) :: byte) = b"
  for a b c :: byte
  using regroup2 [OF unat_byte_lt [of b] unat_byte_lt [of c], of "unat a"] by simp

lemma byte3: "(of_nat (((unat b mod 16) * 4 + unat c div 64) mod 4 * 64 + unat c mod 64) :: byte) = c"
  for b c :: byte
  using regroup3 [OF unat_byte_lt [of c], of "unat b"] by simp

lemma byte1_pad: "(of_nat (unat a div 4 * 4 + ((unat a mod 4) * 16) div 16) :: byte) = a"
  for a :: byte
  using regroup1_pad [of "unat a"] by simp

lemma byte2_pad: "(of_nat (((unat a mod 4) * 16 + unat b div 16) mod 16 * 16 + ((unat b mod 16) * 4) div 4) :: byte) = b"
  for a b :: byte
  using regroup2_pad [OF unat_byte_lt [of b], of "unat a"] by simp

text \<open>
  C4: for every byte sequence, encoding it with the base64 encoding that builds the write
  payload and decoding the text again gives back exactly the original bytes.
\<close>

theorem b64_roundtrip: "b64decode (b64encode bs) = Some bs"
proof (induction bs rule: b64encode.induct)
  case 1
  show ?case by simp
next
  case (2 a)
  show ?case
    using byte1_pad [of a] by (simp add: val_sextets)
next
  case (3 a b)
  show ?case
    using byte1 [of a b] byte2_pad [of a b] by (simp add: val_sextets not_pad_sextets)
next
  case (4 a b c rest)
  show ?case
    using byte1 [of a b] byte2 [of a b c] byte3 [of b c] "4.IH"
    by (simp add: val_sextets not_pad_sextets)
qed

theorem b64_roundtrip_witness:
  "b64encode [0x4D, 0x61, 0x6E, 0xFF] = ''TWFu/w=='' \<and>
   b64decode ''TWFu/w=='' = Some [0x4D, 0x61, 0x6E, 0xFF]"
proof -
  have e: "b64encode [0x4D, 0x61, 0x6E, 0xFF] = ''TWFu/w==''"
    by (simp add: b64char_def b64_alphabet_def)
  have d: "b64decode (b64encode [0x4D, 0x61, 0x6E, 0xFF]) = Some [0x4D, 0x61, 0x6E, 0xFF]"
    by (rule b64_roundtrip)
  from e d [unfolded e] show ?thesis by (rule conjI)
qed

subsection \<open>The loops as sums of iterations\<close>

lemmas state_ops = state_add_def emit_def inc_errors_def inc_success_def init_state_def

lemma state_add_init: "state_add st init_state = st"
  by (simp add: state_ops)

lemma state_add_assoc: "state_add (state_add a b) c = state_add a (state_add b c)"
  by (simp add: state_ops split: option.splits)

lemma emit_frame: "emit es st = state_add st (emit es init_state)"
  by (simp add: state_ops)

lemma curl_gh_get_frame:
  "curl_gh_get env path st =
     (fst (curl_gh_get env path init_state), state_add st (snd (curl_gh_get env path init_state)))"
  by (simp add: curl_gh_get_def state_ops split: run_result.splits)

lemma curl_put_frame:
  "curl_put env tok rel payload st = state_add st (curl_put env tok rel payload init_state)"
  by (simp add: curl_put_def state_ops Let_def
      split: run_result.splits option.splits sum.splits bool.splits)

lemma raised_curl_gh_get: "raised (snd (curl_gh_get env api st)) = raised st"
  by (simp add: curl_gh_get_def emit_def split: run_result.splits)

lemma raised_curl_put: "raised (curl_put env tok rel payload st) = raised st"
  by (simp add: curl_put_def Let_def emit_def inc_errors_def inc_success_def
      split: run_result.splits option.splits sum.splits bool.splits)

lemma curl_file_frame:
  "curl_file env tok d st f = state_add st (curl_iter env tok (d, f))"
proof -
  show ?thesis
    unfolding curl_iter_def curl_file_def Let_def fst_conv snd_conv
    apply (subst curl_gh_get_frame)
    apply (subst (2) curl_put_frame)
    apply (subst curl_put_frame)
    apply (simp add: state_ops raised_curl_put raised_curl_gh_get case_prod_beta
        split: sum.splits)
    done
qed


lemma gh_file_frame:
  "gh_file env d st f = state_add st (gh_iter env (d, f))"
  unfolding gh_iter_def gh_file_def gh_gh_get_def gh_put_def Let_def fst_conv snd_conv
  by (simp add: state_ops split: sum.splits prod.splits)

lemma foldl_frame:
  assumes "\<And>st x. step st x = state_add st (g x)"
  shows "foldl step st xs = foldl state_add st (map g xs)"
  by (induction xs arbitrary: st) (simp_all add: assms)

lemma foldl_state_add_append:
  "foldl state_add st (xs @ ys) = foldl state_add (foldl state_add st xs) ys"
  by simp

lemma foldl_state_add_shift:
  "foldl state_add (state_add st d) ds = state_add st (foldl state_add d ds)"
  by (induction ds arbitrary: d) (simp_all add: state_add_assoc)

lemma foldl_state_add_init:
  "foldl state_add st ds = state_add st (foldl state_add init_state ds)"
  using foldl_state_add_shift [of st init_state ds] by (simp add: state_add_init)

lemma foldl_state_add_concat:
  "foldl state_add st (concat xss) =
     foldl state_add st (map (\<lambda>xs. foldl state_add init_state xs) xss)"
proof (induction xss arbitrary: st)
  case Nil
  show ?case by simp
next
  case (Cons xs xss)
  show ?case
    using Cons.IH [of "foldl state_add st xs"] foldl_state_add_init [of st xs]
    by simp
qed

lemma foldl_state_add_filter:
  assumes "\<And>x. x \<in> set xs \<Longrightarrow> \<not> keep x \<Longrightarrow> g x = init_state"
  shows "foldl state_add st (map g xs) = foldl state_add st (map g (filter keep xs))"
  using assms by (induction xs arbitrary: st) (simp_all add: state_add_init)

lemma trace_foldl_state_add:
  "trace (foldl state_add st ds) = trace st @ concat (map trace ds)"
  by (induction ds arbitrary: st) (simp_all add: state_add_def)

lemma success_foldl_state_add:
  "success (foldl state_add st ds) = success st + sum_list (map success ds)"
  by (induction ds arbitrary: st) (simp_all add: state_add_def)

lemma errors_foldl_state_add:
  "errors (foldl state_add st ds) = errors st + sum_list (map errors ds)"
  by (induction ds arbitrary: st) (simp_all add: state_add_def)

lemma concat_concat_map:
  "concat (concat (map (\<lambda>x. map f (g x)) xs)) = concat (map (\<lambda>x. concat (map f (g x))) xs)"
  by (induction xs) simp_all

lemma walk_files_under: "walk_files tree = files_under ROOT tree"
proof -
  have "concat (map (\<lambda>(dirpath, dirnames, filenames). map (Pair dirpath) filenames) (os_walk d t))
        = files_under d t" for d t
  proof (induction d t rule: os_walk.induct)
    case (1 d)
    show ?case by simp
  next
    case (2 d entries)
    have "concat (map (\<lambda>e. concat (map (\<lambda>(dirpath, dirnames, filenames). map (Pair dirpath) filenames)
              (os_walk (os_path_join d (fst e)) (snd e)))) entries)
          = concat (map (\<lambda>e. files_under (os_path_join d (fst e)) (snd e)) entries)"
      using 2 by (auto intro!: arg_cong [where f = concat])
    then show ?case
      by (simp add: map_concat comp_def concat_concat_map)
  qed
  then show ?thesis by (simp add: walk_files_def)
qed


lemma curl_iter_excluded:
  "curl_excluded (relpath (os_path_join d f)) \<Longrightarrow> curl_iter env tok (d, f) = init_state"
  by (simp add: curl_iter_def curl_file_def)

lemma gh_iter_script:
  "os_path_join d f = script_abspath env \<Longrightarrow> gh_iter env (d, f) = init_state"
  by (simp add: gh_iter_def gh_file_def)

lemma curl_dir_fold:
  "curl_dir env tok st (d, ds, fs) =
     foldl state_add st
       (map (curl_iter env tok) (filter (\<lambda>df. \<not> curl_skipped df) (map (Pair d) fs)))"
proof (cases "''.git'' \<in> set (split_sep d)")
  case True
  then have "filter (\<lambda>df. \<not> curl_skipped df) (map (Pair d) fs) = []"
    by (simp add: curl_skipped_def filter_empty_conv)
  with True show ?thesis by (simp add: curl_dir_def)
next
  case False
  have "foldl (curl_file env tok d) st fs
        = foldl state_add st (map (\<lambda>f. curl_iter env tok (d, f)) fs)"
    by (rule foldl_frame) (rule curl_file_frame)
  also have "\<dots> = foldl state_add st (map (curl_iter env tok) (map (Pair d) fs))"
    by (simp add: comp_def)
  also have "\<dots> = foldl state_add st
       (map (curl_iter env tok) (filter (\<lambda>df. \<not> curl_skipped df) (map (Pair d) fs)))"
    by (rule foldl_state_add_filter) (auto simp: curl_skipped_def False curl_iter_excluded)
  finally show ?thesis using False by (simp add: curl_dir_def)
qed

lemma curl_dirs_fold:
  "foldl (curl_dir env tok) st triples =
     foldl state_add st
       (map (curl_iter env tok) (filter (\<lambda>df. \<not> curl_skipped df)
          (concat (map (\<lambda>(dirpath, dirnames, filenames). map (Pair dirpath) filenames) triples))))"
proof (induction triples arbitrary: st)
  case Nil
  show ?case by simp
next
  case (Cons t ts)
  obtain d ds fs where t: "t = (d, ds, fs)" by (cases t)
  show ?case
    by (simp add: t curl_dir_fold Cons.IH)
qed

lemma curl_loop_fold:
  "curl_loop env tok tree =
     foldl state_add init_state
       (map (curl_iter env tok) (filter (\<lambda>df. \<not> curl_skipped df) (files_under ROOT tree)))"
  unfolding curl_loop_def curl_dirs_fold
  using walk_files_under [of tree] by (simp add: walk_files_def)

lemma curl_gh_get_shape:
  "\<exists>g. (g = [] \<or> g = [Print (LineGetTimeout api)]) \<and>
       snd (curl_gh_get env api init_state)
         = \<lparr>success = 0, errors = 0, trace = Run (ApiGet api) (Some 60) # g, raised = None\<rparr>"
  by (simp add: curl_gh_get_def state_ops split: run_result.splits)

lemma curl_put_shape:
  "\<exists>l. (l = LineOk rel \<or> (\<exists>r. l = LineFail rel r)) \<and>
       curl_put env tok rel payload init_state
         = \<lparr>success = (if l = LineOk rel then 1 else 0),
            errors = (if l = LineOk rel then 0 else 1),
            trace = [Run (CurlPut tok payload (curl_url env rel)) (Some 120), Print l], raised = None\<rparr>"
  by (auto simp: curl_put_def state_ops Let_def
      split: run_result.splits option.splits sum.splits bool.splits)

lemma curl_iter_unfold:
  assumes "\<not> curl_excluded (relpath (os_path_join d f))"
  shows "curl_iter env tok (d, f) =
     (let fp = os_path_join d f; rel = relpath fp; api = quote env ''/'' rel;
          p = fst (curl_gh_get env api init_state);
          s = snd (curl_gh_get env api init_state)
      in case read_file env fp of
           Inl e \<Rightarrow> state_add s \<lparr>success = 0, errors = 1,
                                  trace = [Open fp, Print (LineReadError rel e)], raised = None\<rparr>
         | Inr b \<Rightarrow>
             state_add s (state_add \<lparr>success = 0, errors = 0, trace = [Open fp], raised = None\<rparr>
               (curl_put env tok rel (curl_payload rel (b64encode b) (curl_sha env p))
                  init_state)))"
  using assms
  unfolding curl_iter_def curl_file_def Let_def fst_conv snd_conv
  apply (subst curl_put_frame)
  apply (simp add: state_ops raised_curl_put raised_curl_gh_get case_prod_beta
      split: sum.splits)
  done

lemma curl_iter_shape:
  assumes "\<not> curl_excluded (relpath (os_path_join d f))"
  shows "\<exists>g l.
     (g = [] \<or> g = [Print (LineGetTimeout (quote env ''/'' (relpath (os_path_join d f))))]) \<and>
     ((\<exists>e. read_file env (os_path_join d f) = Inl e \<and>
           l = LineReadError (relpath (os_path_join d f)) e \<and>
           curl_iter env tok (d, f) =
             \<lparr>success = 0, errors = 1,
              trace = Run (ApiGet (quote env ''/'' (relpath (os_path_join d f)))) (Some 60) # g
                      @ [Open (os_path_join d f), Print l], raised = None\<rparr>) \<or>
      (\<exists>b. read_file env (os_path_join d f) = Inr b \<and>
           (l = LineOk (relpath (os_path_join d f))
            \<or> (\<exists>r. l = LineFail (relpath (os_path_join d f)) r)) \<and>
           curl_iter env tok (d, f) =
             \<lparr>success = (if l = LineOk (relpath (os_path_join d f)) then 1 else 0),
              errors = (if l = LineOk (relpath (os_path_join d f)) then 0 else 1),
              trace = Run (ApiGet (quote env ''/'' (relpath (os_path_join d f)))) (Some 60) # g
                      @ [Open (os_path_join d f),
                         Run (CurlPut tok
                               (curl_payload (relpath (os_path_join d f)) (b64encode b)
                                  (curl_sha env
                                     (fst (curl_gh_get env
                                        (quote env ''/'' (relpath (os_path_join d f))) init_state))))
                               (curl_url env (relpath (os_path_join d f)))) (Some 120),
                         Print l], raised = None\<rparr>))"
proof -
  let ?fp = "os_path_join d f"
  let ?rel = "relpath ?fp"
  let ?api = "quote env ''/'' ?rel"
  obtain g where g: "g = [] \<or> g = [Print (LineGetTimeout ?api)]"
    and s: "snd (curl_gh_get env ?api init_state)
         = \<lparr>success = 0, errors = 0, trace = Run (ApiGet ?api) (Some 60) # g, raised = None\<rparr>"
    using curl_gh_get_shape [of ?api env] by blast
  show ?thesis
  proof (cases "read_file env ?fp")
    case (Inl e)
    have "curl_iter env tok (d, f) =
             \<lparr>success = 0, errors = 1,
              trace = Run (ApiGet ?api) (Some 60) # g @ [Open ?fp, Print (LineReadError ?rel e)], raised = None\<rparr>"
      by (simp add: curl_iter_unfold [OF assms] Let_def Inl s state_add_def)
    with g Inl show ?thesis by blast
  next
    case (Inr b)
    let ?payload = "curl_payload ?rel (b64encode b)
       (curl_sha env (fst (curl_gh_get env ?api init_state)))"
    obtain l where l: "l = LineOk ?rel \<or> (\<exists>r. l = LineFail ?rel r)"
      and p: "curl_put env tok ?rel ?payload init_state
         = \<lparr>success = (if l = LineOk ?rel then 1 else 0),
            errors = (if l = LineOk ?rel then 0 else 1),
            trace = [Run (CurlPut tok ?payload (curl_url env ?rel)) (Some 120), Print l], raised = None\<rparr>"
      using curl_put_shape [of ?rel env tok ?payload] by blast
    have "curl_iter env tok (d, f) =
             \<lparr>success = (if l = LineOk ?rel then 1 else 0),
              errors = (if l = LineOk ?rel then 0 else 1),
              trace = Run (ApiGet ?api) (Some 60) # g
                      @ [Open ?fp, Run (CurlPut tok ?payload (curl_url env ?rel)) (Some 120),
                         Print l], raised = None\<rparr>"
      by (simp add: curl_iter_unfold [OF assms] Let_def Inr s p state_add_def)
    with g l Inr show ?thesis by blast
  qed
qed


lemma curl_iter_counts:
  assumes "\<not> curl_excluded (relpath (os_path_join d f))"
  shows "List.map_filter result_rel (trace (curl_iter env tok (d, f))) = [relpath (os_path_join d f)]"
    and "length (filter is_result (trace (curl_iter env tok (d, f)))) = 1"
    and "int (length (filter is_failure (trace (curl_iter env tok (d, f)))))
           = errors (curl_iter env tok (d, f))"
    and "success (curl_iter env tok (d, f)) = 1 - errors (curl_iter env tok (d, f))"
    and "errors (curl_iter env tok (d, f)) = 0 \<or> errors (curl_iter env tok (d, f)) = 1"
  using curl_iter_shape [OF assms, of env tok]
  by (auto simp: List.map_filter_simps)

lemma length_filter_concat:
  "length (filter P (concat xss)) = sum_list (map (\<lambda>xs. length (filter P xs)) xss)"
  by (induction xss) simp_all



text \<open>Totals over a list of iterations, each of which reports one file.\<close>

lemma totals:
  assumes "\<And>x. x \<in> set xs \<Longrightarrow> length (filter is_result (trace (g x))) = 1"
    and "\<And>x. x \<in> set xs \<Longrightarrow> int (length (filter is_failure (trace (g x)))) = errors (g x)"
    and "\<And>x. x \<in> set xs \<Longrightarrow> success (g x) = 1 - errors (g x)"
  shows "length (filter is_result (trace (foldl state_add init_state (map g xs)))) = length xs"
    and "int (length (filter is_failure (trace (foldl state_add init_state (map g xs)))))
           = errors (foldl state_add init_state (map g xs))"
    and "success (foldl state_add init_state (map g xs))
           = int (length xs) - errors (foldl state_add init_state (map g xs))"
proof -
  have t: "trace (foldl state_add init_state (map g xs)) = concat (map (\<lambda>x. trace (g x)) xs)"
    by (simp add: trace_foldl_state_add init_state_def comp_def)
  have e: "errors (foldl state_add init_state (map g xs)) = sum_list (map (\<lambda>x. errors (g x)) xs)"
    by (simp add: errors_foldl_state_add init_state_def comp_def)
  have s: "success (foldl state_add init_state (map g xs)) = sum_list (map (\<lambda>x. success (g x)) xs)"
    by (simp add: success_foldl_state_add init_state_def comp_def)
  show "length (filter is_result (trace (foldl state_add init_state (map g xs)))) = length xs"
    unfolding t using assms(1) by (induction xs) simp_all
  show "int (length (filter is_failure (trace (foldl state_add init_state (map g xs)))))
           = errors (foldl state_add init_state (map g xs))"
    unfolding t e using assms(2) by (induction xs) simp_all
  show "success (foldl state_add init_state (map g xs))
           = int (length xs) - errors (foldl state_add init_state (map g xs))"
    unfolding s e using assms(3) by (induction xs) simp_all
qed


subsection \<open>The loops of \<open>upload_via_gh.py\<close>\<close>

lemma gh_iter_unfold:
  assumes "os_path_join d f \<noteq> script_abspath env"
  shows "gh_iter env (d, f) =
     (let fp = os_path_join d f; rel = relpath fp; api = quote env ''/'' rel
      in case read_file env fp of
           Inl e \<Rightarrow> \<lparr>success = 0, errors = 1, trace = [Open fp, Print (LineReadError rel e)],
                     raised = None\<rparr>
         | Inr b \<Rightarrow>
             let cmd = ApiPut api (gh_put_fields (''chore: add '' @ rel @ '' via API'')
                         (b64encode b) (gh_sha env (run_plain env (ApiGet api))))
             in if argv_refused env cmd then
                  \<lparr>success = 0, errors = 0,
                   trace = [Open fp, Run (ApiGet api) None, Run cmd None],
                   raised = Some OSError\<rparr>
                else
                  let q = run_plain env cmd
                  in \<lparr>success = (if returncode q = 0 then 1 else 0),
                      errors = (if returncode q = 0 then 0 else 1),
                      trace = [Open fp, Run (ApiGet api) None, Run cmd None,
                               Print (if returncode q = 0 then LineOk rel
                                      else LineFail rel (strip env (stderr q)))],
                      raised = None\<rparr>)"
  using assms
  unfolding gh_iter_def gh_file_def gh_gh_get_def gh_put_def Let_def fst_conv snd_conv
  by (simp add: state_ops split: sum.splits prod.splits)

lemma gh_raises_iff:
  "gh_raises env (d, f) \<longleftrightarrow>
     os_path_join d f \<noteq> script_abspath env
     \<and> (\<exists>b. read_file env (os_path_join d f) = Inr b
          \<and> argv_refused env
               (ApiPut (quote env ''/'' (relpath (os_path_join d f)))
                  (gh_put_fields (''chore: add '' @ relpath (os_path_join d f) @ '' via API'')
                     (b64encode b)
                     (gh_sha env (run_plain env
                        (ApiGet (quote env ''/'' (relpath (os_path_join d f)))))))))"
proof (cases "os_path_join d f = script_abspath env")
  case True
  then show ?thesis by (simp add: gh_raises_def gh_iter_script init_state_def)
next
  case False
  show ?thesis
    using False
    by (auto simp: gh_raises_def gh_iter_unfold [OF False] Let_def split: sum.splits)
qed

lemma gh_iter_counts:
  assumes "os_path_join d f \<noteq> script_abspath env" "\<not> gh_raises env (d, f)"
  shows "List.map_filter result_rel (trace (gh_iter env (d, f))) = [relpath (os_path_join d f)]"
    and "length (filter is_result (trace (gh_iter env (d, f)))) = 1"
    and "int (length (filter is_failure (trace (gh_iter env (d, f)))))
           = errors (gh_iter env (d, f))"
    and "success (gh_iter env (d, f)) = 1 - errors (gh_iter env (d, f))"
    and "errors (gh_iter env (d, f)) = 0 \<or> errors (gh_iter env (d, f)) = 1"
  using assms(2)
  by (auto simp: gh_raises_def gh_iter_unfold [OF assms(1)] Let_def List.map_filter_simps
      split: sum.splits if_splits)

lemma gh_iter_raised:
  assumes "gh_raises env (d, f)"
  shows "filter is_result (trace (gh_iter env (d, f))) = []"
    and "success (gh_iter env (d, f)) = 0" and "errors (gh_iter env (d, f)) = 0"
    and "raised (gh_iter env (d, f)) = Some OSError"
proof -
  from assms have n: "os_path_join d f \<noteq> script_abspath env"
    by (simp add: gh_raises_iff)
  show "filter is_result (trace (gh_iter env (d, f))) = []"
    and "success (gh_iter env (d, f)) = 0" and "errors (gh_iter env (d, f)) = 0"
    and "raised (gh_iter env (d, f)) = Some OSError"
    using assms
    by (auto simp: gh_raises_def gh_iter_unfold [OF n] Let_def split: sum.splits if_splits)
qed

lemma up_to_first_none: "(\<And>x. x \<in> set xs \<Longrightarrow> \<not> P x) \<Longrightarrow> up_to_first P xs = xs"
  by (induction xs) simp_all

lemma up_to_first_append:
  "up_to_first P (xs @ ys)
     = (if \<exists>x \<in> set xs. P x then up_to_first P xs else xs @ up_to_first P ys)"
  by (induction xs) simp_all

lemma up_to_first_map: "up_to_first P (map h xs) = map h (up_to_first (\<lambda>x. P (h x)) xs)"
  by (induction xs) simp_all

lemma set_up_to_first: "set (up_to_first P xs) \<subseteq> set xs"
  by (induction xs) auto

lemma raised_foldl_state_add:
  assumes "raised st = None"
  shows "raised (foldl state_add st (map g (up_to_first (\<lambda>x. raised (g x) \<noteq> None) xs))) \<noteq> None
     \<longleftrightarrow> (\<exists>x \<in> set xs. raised (g x) \<noteq> None)"
  using assms
proof (induction xs arbitrary: st)
  case Nil
  then show ?case by simp
next
  case (Cons x xs)
  show ?case
  proof (cases "raised (g x)")
    case None
    with Cons.prems have "raised (state_add st (g x)) = None"
      by (simp add: state_add_def)
    from Cons.IH [OF this] None show ?thesis by simp
  next
    case (Some e)
    then show ?thesis by (simp add: state_add_def)
  qed
qed

lemma for_loop_frame:
  assumes "\<And>st x. body st x = state_add st (g x)" and "raised st = None"
  shows "for_loop body st xs
     = foldl state_add st (map g (up_to_first (\<lambda>x. raised (g x) \<noteq> None) xs))"
  using assms(2)
proof (induction xs arbitrary: st)
  case Nil
  show ?case by simp
next
  case (Cons x xs)
  show ?case
  proof (cases "raised (g x)")
    case None
    with Cons.prems have r: "raised (state_add st (g x)) = None"
      by (simp add: state_add_def)
    from Cons.IH [OF r] None r show ?thesis by (simp add: assms(1) Let_def)
  next
    case (Some e)
    then have "raised (state_add st (g x)) \<noteq> None" by (simp add: state_add_def)
    with Some show ?thesis by (simp add: assms(1) Let_def)
  qed
qed

lemma foldl_up_to_first_filter:
  assumes "\<And>x. x \<in> set xs \<Longrightarrow> \<not> keep x \<Longrightarrow> g x = init_state"
  shows "foldl state_add st (map g (up_to_first (\<lambda>x. raised (g x) \<noteq> None) xs))
     = foldl state_add st
         (map g (up_to_first (\<lambda>x. raised (g x) \<noteq> None) (filter keep xs)))"
  using assms
proof (induction xs arbitrary: st)
  case Nil
  show ?case by simp
next
  case (Cons x xs)
  show ?case
  proof (cases "keep x")
    case True
    with Cons show ?thesis by simp
  next
    case False
    with Cons.prems have gx: "g x = init_state" by simp
    then have "raised (g x) = None" by (simp add: init_state_def)
    with gx False Cons show ?thesis by (simp add: state_add_init)
  qed
qed

lemma for_loop_blocks:
  assumes "\<And>st t. raised st = None \<Longrightarrow>
      body st t = foldl state_add st (map g (up_to_first (\<lambda>x. raised (g x) \<noteq> None) (F t)))"
    and "raised st = None"
  shows "for_loop body st ts
     = foldl state_add st
         (map g (up_to_first (\<lambda>x. raised (g x) \<noteq> None) (concat (map F ts))))"
  using assms(2)
proof (induction ts arbitrary: st)
  case Nil
  show ?case by simp
next
  case (Cons t ts)
  let ?P = "\<lambda>x. raised (g x) \<noteq> None"
  let ?st = "foldl state_add st (map g (up_to_first ?P (F t)))"
  have b: "body st t = ?st" by (rule assms(1)) (rule Cons.prems)
  have r: "raised ?st \<noteq> None \<longleftrightarrow> (\<exists>x \<in> set (F t). ?P x)"
    by (rule raised_foldl_state_add) (rule Cons.prems)
  show ?case
  proof (cases "\<exists>x \<in> set (F t). ?P x")
    case True
    with r b show ?thesis by (simp add: Let_def up_to_first_append)
  next
    case False
    with r have n: "raised ?st = None" by simp
    from False have u: "up_to_first ?P (F t) = F t"
      by (intro up_to_first_none) auto
    from Cons.IH [OF n] b n False u show ?thesis
      by (simp add: Let_def up_to_first_append)
  qed
qed

lemma gh_dir_fold:
  assumes "raised st = None"
  shows "gh_dir env st (d, ds, fs) =
     foldl state_add st
       (map (gh_iter env)
          (up_to_first (\<lambda>df. raised (gh_iter env df) \<noteq> None)
             (filter (\<lambda>df. \<not> gh_skipped env df) (map (Pair d) fs))))"
proof (cases "''.git'' \<in> set (split_sep d)")
  case True
  then have "filter (\<lambda>df. \<not> gh_skipped env df) (map (Pair d) fs) = []"
    by (simp add: gh_skipped_def filter_empty_conv)
  with True show ?thesis by (simp add: gh_dir_def)
next
  case False
  have "for_loop (gh_file env d) st fs
        = foldl state_add st
            (map (\<lambda>f. gh_iter env (d, f))
               (up_to_first (\<lambda>f. raised (gh_iter env (d, f)) \<noteq> None) fs))"
    by (rule for_loop_frame) (rule gh_file_frame, rule assms)
  also have "\<dots> = foldl state_add st
            (map (gh_iter env)
               (up_to_first (\<lambda>df. raised (gh_iter env df) \<noteq> None) (map (Pair d) fs)))"
    by (simp add: up_to_first_map comp_def)
  also have "\<dots> = foldl state_add st
       (map (gh_iter env)
          (up_to_first (\<lambda>df. raised (gh_iter env df) \<noteq> None)
             (filter (\<lambda>df. \<not> gh_skipped env df) (map (Pair d) fs))))"
    by (rule foldl_up_to_first_filter) (auto simp: gh_skipped_def False gh_iter_script)
  finally show ?thesis using False by (simp add: gh_dir_def)
qed

lemma gh_loop_fold:
  "gh_loop env tree = foldl state_add init_state (map (gh_iter env) (gh_reached env tree))"
proof -
  let ?F = "\<lambda>t. filter (\<lambda>df. \<not> gh_skipped env df)
                 (case t of (dirpath, dirnames, filenames) \<Rightarrow> map (Pair dirpath) filenames)"
  have "for_loop (gh_dir env) init_state (os_walk ROOT tree)
        = foldl state_add init_state
            (map (gh_iter env)
               (up_to_first (\<lambda>df. raised (gh_iter env df) \<noteq> None)
                  (concat (map ?F (os_walk ROOT tree)))))"
  proof (rule for_loop_blocks)
    fix st :: state and t :: "string \<times> string list \<times> string list"
    assume "raised st = None"
    then show "gh_dir env st t = foldl state_add st
        (map (gh_iter env) (up_to_first (\<lambda>df. raised (gh_iter env df) \<noteq> None) (?F t)))"
      by (cases t) (simp add: gh_dir_fold)
  next
    show "raised init_state = None" by (simp add: init_state_def)
  qed
  moreover have "concat (map (\<lambda>t. filter p (h t)) ts) = filter p (concat (map h ts))"
    for p :: "string \<times> string \<Rightarrow> bool"
      and h :: "string \<times> string list \<times> string list \<Rightarrow> (string \<times> string) list" and ts
    by (induction ts) simp_all
  then have "concat (map ?F (os_walk ROOT tree))
      = filter (\<lambda>df. \<not> gh_skipped env df) (files_under ROOT tree)"
    using walk_files_under [of tree]
    by (simp add: walk_files_def case_prod_unfold)
  moreover have "gh_raises env = (\<lambda>df. raised (gh_iter env df) \<noteq> None)"
    by (simp add: gh_raises_def fun_eq_iff)
  ultimately show ?thesis
    by (simp add: gh_loop_def gh_reached_def)
qed


lemma gh_reached_all:
  assumes "gh_returns env tree"
  shows "gh_reached env tree = filter (\<lambda>df. \<not> gh_skipped env df) (files_under ROOT tree)"
  unfolding gh_reached_def using assms by (intro up_to_first_none) (auto simp: gh_returns_def)


subsection \<open>The sample run, evaluated\<close>

lemma ex_gh_run: \<open>gh_main ex_env ex_tree =
  \<lparr>events =
    [Open ''./a.txt'', Run (ApiGet ''a.txt'') None,
     Run (ApiPut ''a.txt''
           [(''message'', PStr ''chore: add a.txt via API''),
            (''content'', PStr ''aGk='')])
      None,
     Print (LineOk ''a.txt''), Open ''./b.bin'',
     Run (ApiGet ''b.bin'') None,
     Run (ApiPut ''b.bin''
           [(''message'', PStr ''chore: add b.bin via API''),
            (''content'', PStr ''/w==''), (''sha'', PStr ''T1'')])
      None,
     Print (LineOk ''b.bin''), Open ''./.DS_Store'',
     Run (ApiGet ''.DS_Store'') None,
     Run (ApiPut ''.DS_Store''
           [(''message'', PStr ''chore: add .DS_Store via API''),
            (''content'', PStr ''/w=='')])
      None,
     Print (LineOk ''.DS_Store''), Open ''./sub/.git'',
     Run (ApiGet ''sub/.git'') None,
     Run (ApiPut ''sub/.git''
           [(''message'', PStr ''chore: add sub/.git via API''),
            (''content'', PStr ''/w=='')])
      None,
     Print (LineOk ''sub/.git''), Open ''./sub/c.txt'',
     Run (ApiGet ''sub/c.txt'') None,
     Run (ApiPut ''sub/c.txt''
           [(''message'', PStr ''chore: add sub/c.txt via API''),
            (''content'', PStr ''/w=='')])
      None,
     Print (LineFail ''sub/c.txt'' ''Conflict''), Open ''./sub/d.txt'',
     Print (LineReadError ''sub/d.txt'' ''Permission denied''),
     Print (LineDone 4 2)],
    exit_code = 2\<rparr>\<close>
  by code_simp

lemma ex_curl_run: \<open>curl_main ex_env ex_tree =
  \<lparr>events =
    [Run AuthToken (Some 10), Run (ApiGet ''a.txt'') (Some 60),
     Open ''./a.txt'',
     Run (CurlPut ''gho_abc''
           [(''message'', PStr ''chore: add a.txt via API''),
            (''content'', PStr ''aGk='')]
           ''https://api.github.com/repos/dahemar/baptiste2/contents/a.txt'')
      (Some 120),
     Print (LineOk ''a.txt''), Run (ApiGet ''b.bin'') (Some 60),
     Open ''./b.bin'',
     Run (CurlPut ''gho_abc''
           [(''message'', PStr ''chore: add b.bin via API''),
            (''content'', PStr ''/w==''), (''sha'', PStr ''T1'')]
           ''https://api.github.com/repos/dahemar/baptiste2/contents/b.bin'')
      (Some 120),
     Print (LineOk ''b.bin''), Run (ApiGet ''sub/.git'') (Some 60),
     Open ''./sub/.git'',
     Run (CurlPut ''gho_abc''
           [(''message'', PStr ''chore: add sub/.git via API''),
            (''content'', PStr ''/w=='')]
           ''https://api.github.com/repos/dahemar/baptiste2/contents/sub/.git'')
      (Some 120),
     Print (LineFail ''sub/.git'' ''{"message":"Conflict"}''),
     Run (ApiGet ''sub/c.txt'') (Some 60),
     Print (LineGetTimeout ''sub/c.txt''), Open ''./sub/c.txt'',
     Run (CurlPut ''gho_abc''
           [(''message'', PStr ''chore: add sub/c.txt via API''),
            (''content'', PStr ''/w=='')]
           ''https://api.github.com/repos/dahemar/baptiste2/contents/sub/c.txt'')
      (Some 120),
     Print (LineFail ''sub/c.txt'' ''curl timeout''),
     Run (ApiGet ''sub/d.txt'') (Some 60), Open ''./sub/d.txt'',
     Print (LineReadError ''sub/d.txt'' ''Permission denied''),
     Print (LineDone 2 3)],
    exit_code = 2\<rparr>\<close>
  by code_simp

subsection \<open>Counters, summary and exit status\<close>

lemma curl_file_step:
  "if curl_excluded (relpath (os_path_join d f)) then curl_file env tok d st f = st
   else (success (curl_file env tok d st f) = success st + 1
           \<and> errors (curl_file env tok d st f) = errors st)
        \<or> (success (curl_file env tok d st f) = success st
           \<and> errors (curl_file env tok d st f) = errors st + 1)"
proof (cases "curl_excluded (relpath (os_path_join d f))")
  case True
  then show ?thesis by (simp add: curl_file_def)
next
  case False
  show ?thesis
    using curl_iter_counts(4,5) [OF False, of env tok] False
    by (auto simp: curl_file_frame state_add_def)
qed

lemma gh_file_step:
  "if os_path_join d f = script_abspath env then gh_file env d st f = st
   else if gh_raises env (d, f) then
     success (gh_file env d st f) = success st \<and> errors (gh_file env d st f) = errors st
     \<and> raised (gh_file env d st f) = Some OSError
   else (success (gh_file env d st f) = success st + 1
           \<and> errors (gh_file env d st f) = errors st)
        \<or> (success (gh_file env d st f) = success st
           \<and> errors (gh_file env d st f) = errors st + 1)"
proof (cases "os_path_join d f = script_abspath env")
  case True
  then show ?thesis by (simp add: gh_file_def)
next
  case False
  show ?thesis
  proof (cases "gh_raises env (d, f)")
    case True
    with False gh_iter_raised [OF True] show ?thesis
      by (simp add: gh_file_frame state_add_def)
  next
    case n: False
    show ?thesis
      using gh_iter_counts(4,5) [OF False n] False n
      by (auto simp: gh_file_frame state_add_def)
  qed
qed

lemma curl_loop_totals:
  shows "length (filter is_result (trace (curl_loop env tok tree)))
     = length (filter (\<lambda>df. \<not> curl_skipped df) (files_under ROOT tree))"
  and "int (length (filter is_failure (trace (curl_loop env tok tree))))
     = errors (curl_loop env tok tree)"
  and "success (curl_loop env tok tree)
     = int (length (filter (\<lambda>df. \<not> curl_skipped df) (files_under ROOT tree)))
       - errors (curl_loop env tok tree)"
proof -
  let ?xs = "filter (\<lambda>df. \<not> curl_skipped df) (files_under ROOT tree)"
  have ex: "\<not> curl_excluded (relpath (os_path_join (fst x) (snd x)))" if "x \<in> set ?xs" for x
    using that by (simp add: curl_skipped_def)
  have a: "length (filter is_result (trace (curl_iter env tok x))) = 1" if "x \<in> set ?xs" for x
    using curl_iter_counts(2) [OF ex [OF that], of env tok] by simp
  have b: "int (length (filter is_failure (trace (curl_iter env tok x))))
             = errors (curl_iter env tok x)" if "x \<in> set ?xs" for x
    using curl_iter_counts(3) [OF ex [OF that], of env tok] by simp
  have c: "success (curl_iter env tok x) = 1 - errors (curl_iter env tok x)"
    if "x \<in> set ?xs" for x
    using curl_iter_counts(4) [OF ex [OF that], of env tok] by simp
  show "length (filter is_result (trace (curl_loop env tok tree))) = length ?xs"
    unfolding curl_loop_fold by (rule totals(1) [OF a b c])
  show "int (length (filter is_failure (trace (curl_loop env tok tree))))
     = errors (curl_loop env tok tree)"
    unfolding curl_loop_fold by (rule totals(2) [OF a b c])
  show "success (curl_loop env tok tree) = int (length ?xs) - errors (curl_loop env tok tree)"
    unfolding curl_loop_fold by (rule totals(3) [OF a b c])
qed


lemma curl_dir_git:
  "''.git'' \<in> set (split_sep d) \<Longrightarrow> curl_dir env tok st (d, ds, fs) = st"
  by (simp add: curl_dir_def)

lemma gh_dir_git:
  "''.git'' \<in> set (split_sep d) \<Longrightarrow> gh_dir env st (d, ds, fs) = st"
  by (simp add: gh_dir_def)

subsection \<open>The file too large for an argument\<close>

lemma length_b64encode: "length (b64encode bs) = 4 * ((length bs + 2) div 3)"
proof (induction bs rule: b64encode.induct)
  case (4 a b c rest)
  have "(5 + length rest) div 3 = Suc ((2 + length rest) div 3)" by presburger
  with 4 show ?case by simp
qed simp_all

lemma length_big_content: "length big_content = 98296"
  by (simp add: big_content_def)

lemma big_refused:
  "linux_refuses (ApiPut path (gh_put_fields msg (b64encode big_content) sha))"
  by (simp add: linux_refuses_def gh_put_fields_def length_b64encode length_big_content)

lemma big_files: "files_under ROOT big_tree = [(''.'', ''big.bin'')]"
  by code_simp

lemma big_split: "split_sep ''.'' = [''.'']"
  by code_simp

lemma big_join: "os_path_join ''.'' ''big.bin'' = ''./big.bin''"
  by code_simp

lemma big_rel: "relpath ''./big.bin'' = ''big.bin''"
  by code_simp

lemma big_env_simps:
  "read_file big_env fp = Inr (big_content)"
  "argv_refused big_env = linux_refuses"
  "quote big_env safe x = x"
  "script_abspath big_env = ''/home/user/site/upload_via_gh.py''"
  "run_plain big_env (ApiGet ''big.bin'')
     = \<lparr>returncode = 1, stdout = [], stderr = ''Not Found''\<rparr>"
  by (simp_all add: big_env_def ex_env_def ex_answer_def)

lemma big_iter:
  "gh_iter big_env (''.'', ''big.bin'')
     = \<lparr>success = 0, errors = 0,
        trace = [Open ''./big.bin'', Run (ApiGet ''big.bin'') None,
                 Run (ApiPut ''big.bin''
                        (gh_put_fields ''chore: add big.bin via API''
                           (b64encode (big_content)) PNone)) None],
        raised = Some OSError\<rparr>"
proof -
  have n: "os_path_join ''.'' ''big.bin'' \<noteq> script_abspath big_env"
    by (simp add: big_join big_env_simps)
  have s: "gh_sha big_env \<lparr>returncode = 1, stdout = [], stderr = ''Not Found''\<rparr> = PNone"
    by (simp add: gh_sha_def)
  show ?thesis
    by (simp add: gh_iter_unfold [OF n] big_join big_rel big_env_simps s big_refused Let_def)
qed

lemma big_loop:
  "gh_loop big_env big_tree = gh_iter big_env (''.'', ''big.bin'')"
proof -
  have n: "\<not> gh_skipped big_env (''.'', ''big.bin'')"
    by (simp add: gh_skipped_def big_split big_join big_env_simps)
  have "gh_reached big_env big_tree = [(''.'', ''big.bin'')]"
    by (simp add: gh_reached_def big_files n)
  then show ?thesis
    by (simp add: gh_loop_fold big_iter state_add_def init_state_def)
qed

text \<open>
  C10: the claim is what the loops do for every file whose write request returns, and
  what \<open>upload_via_curl.py\<close> does; \<open>upload_via_gh.py\<close> misses one case.  The directory holds
  the one file \<open>big.bin\<close> of 98296 bytes, which no check skips.  Its base64 text makes
  the argument \<open>content=...\<close> 131072 bytes long, Linux refuses the argument list, and
  \<open>subprocess.run\<close> in \<open>gh_put\<close> raises \<open>OSError\<close>, which nothing catches: the file moves
  neither counter, the run ends without its summary, with status 1.  On the same
  directory \<open>upload_via_curl.py\<close>, which passes the payload in a file, counts the file.
\<close>

theorem counters_big_file:
  "filter (\<lambda>df. \<not> gh_skipped big_env df) (files_under ROOT big_tree) = [(''.'', ''big.bin'')]
   \<and> read_file big_env (os_path_join ''.'' ''big.bin'') = Inr big_content
   \<and> length big_content = 98296
   \<and> success (gh_file big_env ''.'' init_state ''big.bin'') = 0
   \<and> errors (gh_file big_env ''.'' init_state ''big.bin'') = 0
   \<and> success (gh_loop big_env big_tree) + errors (gh_loop big_env big_tree) = 0
   \<and> events (gh_main big_env big_tree)
       = [Open ''./big.bin'', Run (ApiGet ''big.bin'') None,
          Run (ApiPut ''big.bin''
                 (gh_put_fields ''chore: add big.bin via API'' (b64encode big_content) PNone))
            None]
   \<and> exit_code (gh_main big_env big_tree) = 1
   \<and> filter (\<lambda>df. \<not> curl_skipped df) (files_under ROOT big_tree) = [(''.'', ''big.bin'')]
   \<and> success (curl_loop big_env ''gho_abc'' big_tree)
       + errors (curl_loop big_env ''gho_abc'' big_tree) = 1"
proof -
  have n: "\<not> gh_skipped big_env (''.'', ''big.bin'')"
    by (simp add: gh_skipped_def big_split big_join big_env_simps)
  have c: "\<not> curl_skipped (''.'', ''big.bin'')" by code_simp
  have f: "gh_file big_env ''.'' init_state ''big.bin'' = gh_iter big_env (''.'', ''big.bin'')"
    by (simp add: gh_iter_def)
  have t: "success (curl_loop big_env ''gho_abc'' big_tree)
       + errors (curl_loop big_env ''gho_abc'' big_tree) = 1"
    using curl_loop_totals(3) [of big_env "''gho_abc''" big_tree] c by (simp add: big_files)
  show ?thesis
    using n c t
    by (simp add: big_files big_env_simps length_big_content f big_loop big_iter gh_main_def)
qed

lemma filter_result_simps:
  "filter is_result (xs @ [Print (LineDone a b)]) = filter is_result xs"
  "filter is_failure (xs @ [Print (LineDone a b)]) = filter is_failure xs"
  by simp_all




subsection \<open>The concurrency token in the write request\<close>

lemma map_of_curl_payload:
  "map_of (curl_payload rel c sha) ''sha'' = (if truthy sha then Some sha else None)"
  by (simp add: curl_payload_def)

lemma map_of_gh_put_fields:
  "map_of (gh_put_fields msg c sha) ''sha'' = (if truthy sha then Some sha else None)"
  by (simp add: gh_put_fields_def)

lemma sha_key_curl_payload:
  "''sha'' \<in> fst ` set (curl_payload rel c sha) \<longleftrightarrow> truthy sha"
  by (auto simp: curl_payload_def)

lemma sha_key_gh_put_fields:
  "''sha'' \<in> fst ` set (gh_put_fields msg c sha) \<longleftrightarrow> truthy sha"
  by (auto simp: gh_put_fields_def)

lemma curl_sha_lookup_token:
  "(if truthy (curl_sha env (fst (curl_gh_get env api st)))
    then Some (curl_sha env (fst (curl_gh_get env api st))) else None)
   = lookup_token env (run_timeout env (ApiGet api) 60)"
proof (cases "run_timeout env (ApiGet api) 60")
  case TimeoutExpired
  then show ?thesis
    by (simp add: curl_gh_get_def curl_sha_def lookup_token_def)
next
  case (Completed c)
  show ?thesis
  proof (cases "json_loads env (stdout c)")
    case None
    with Completed show ?thesis
      by (simp add: curl_gh_get_def curl_sha_def lookup_token_def)
  next
    case (Some obj)
    with Completed show ?thesis
      by (cases obj) (simp_all add: curl_gh_get_def curl_sha_def lookup_token_def
          split: option.splits)
  qed
qed

lemma gh_sha_lookup_token:
  "(if truthy (gh_sha env c) then Some (gh_sha env c) else None)
   = lookup_token env (Completed c)"
proof (cases "json_loads env (stdout c)")
  case None
  then show ?thesis by (simp add: gh_sha_def lookup_token_def)
next
  case (Some obj)
  show ?thesis
  proof (cases obj)
    case (PDict kvs)
    show ?thesis
    proof (cases "map_of kvs ''sha''")
      case None
      then have "''sha'' \<notin> fst ` set kvs" by (simp add: map_of_eq_None_iff)
      with None Some PDict show ?thesis by (simp add: gh_sha_def lookup_token_def)
    next
      case (Some t)
      then have "''sha'' \<in> fst ` set kvs"
        using map_of_eq_None_iff [of kvs "''sha''"] by auto
      with Some \<open>json_loads env (stdout c) = Some obj\<close> PDict show ?thesis
        by (simp add: gh_sha_def lookup_token_def)
    qed
  qed (use Some in \<open>simp_all add: gh_sha_def lookup_token_def split: bool.splits\<close>)
qed

lemma put_payloads_simps:
  "put_payloads [] = []"
  "put_payloads (xs @ ys) = put_payloads xs @ put_payloads ys"
  "put_payloads (e # es) = (case put_payload e of None \<Rightarrow> put_payloads es | Some p \<Rightarrow> p # put_payloads es)"
  by (simp_all add: put_payloads_def List.map_filter_def split: option.splits)

lemma fst_curl_gh_get: "fst (curl_gh_get env api st) = fst (curl_gh_get env api init_state)"
  by (subst curl_gh_get_frame) simp

lemma curl_file_put:
  assumes "\<not> curl_excluded (relpath (os_path_join d f))"
    and "read_file env (os_path_join d f) = Inr b"
  shows "put_payloads (trace (curl_file env tok d st f))
     = put_payloads (trace st)
       @ [curl_payload (relpath (os_path_join d f)) (b64encode b)
            (curl_sha env (fst (curl_gh_get env
               (quote env ''/'' (relpath (os_path_join d f))) st)))]"
  using curl_iter_shape [OF assms(1), of env tok] assms(2)
  by (auto simp: curl_file_frame state_add_def put_payloads_simps fst_curl_gh_get [of env _ st])

lemma gh_file_put:
  assumes "os_path_join d f \<noteq> script_abspath env"
    and "read_file env (os_path_join d f) = Inr b"
  shows "put_payloads (trace (gh_file env d st f))
     = put_payloads (trace st)
       @ [gh_put_fields (''chore: add '' @ relpath (os_path_join d f) @ '' via API'')
            (b64encode b)
            (gh_sha env (run_plain env (ApiGet (quote env ''/'' (relpath (os_path_join d f))))))]"
  using assms(2)
  by (simp add: gh_file_frame gh_iter_unfold [OF assms(1)] Let_def state_add_def
      put_payloads_simps)


text \<open>
  C1: for every file that is processed up to its write (it is not skipped and its content
  was read), exactly one PUT is issued, and it carries the field \<open>sha\<close> if and only if the
  lookup succeeded and returned an existing token, the field then being that token.  A
  lookup that timed out or ended with a status other than 0 (not found, transport
  failure) returns no token: the PUT is issued all the same, without \<open>sha\<close>.  This holds
  for \<open>upload_via_curl.py\<close> and for \<open>upload_via_gh.py\<close>.
\<close>

theorem token_iff_lookup:
  "(\<not> curl_excluded (relpath (os_path_join d f)) \<and> read_file env (os_path_join d f) = Inr b \<longrightarrow>
      (\<exists>payload. put_payloads (trace (curl_file env tok d st f)) = put_payloads (trace st) @ [payload]
         \<and> map_of payload ''sha''
             = lookup_token env
                 (run_timeout env (ApiGet (quote env ''/'' (relpath (os_path_join d f)))) 60)))
   \<and> (os_path_join d f \<noteq> script_abspath env \<and> read_file env (os_path_join d f) = Inr b \<longrightarrow>
      (\<exists>kvs. put_payloads (trace (gh_file env d st f)) = put_payloads (trace st) @ [kvs]
         \<and> map_of kvs ''sha''
             = lookup_token env
                 (Completed (run_plain env (ApiGet (quote env ''/'' (relpath (os_path_join d f))))))))
   \<and> lookup_token env TimeoutExpired = None
   \<and> (returncode c \<noteq> 0 \<longrightarrow> lookup_token env (Completed c) = None)
   \<and> (returncode c = 0 \<and> json_loads env (stdout c) = Some (PDict kvs')
        \<and> map_of kvs' ''sha'' = Some t \<and> truthy t \<longrightarrow>
      lookup_token env (Completed c) = Some t)"
proof -
  have curl: "\<exists>payload. put_payloads (trace (curl_file env tok d st f)) = put_payloads (trace st) @ [payload]
         \<and> map_of payload ''sha''
             = lookup_token env
                 (run_timeout env (ApiGet (quote env ''/'' (relpath (os_path_join d f)))) 60)"
    if "\<not> curl_excluded (relpath (os_path_join d f))" "read_file env (os_path_join d f) = Inr b"
    using curl_file_put [OF that, of tok st]
      curl_sha_lookup_token [of env "quote env ''/'' (relpath (os_path_join d f))" st]
    by (simp add: map_of_curl_payload)
  have gh: "\<exists>kvs. put_payloads (trace (gh_file env d st f)) = put_payloads (trace st) @ [kvs]
         \<and> map_of kvs ''sha''
             = lookup_token env
                 (Completed (run_plain env (ApiGet (quote env ''/'' (relpath (os_path_join d f))))))"
    if "os_path_join d f \<noteq> script_abspath env" "read_file env (os_path_join d f) = Inr b"
    using gh_file_put [OF that, of st]
      gh_sha_lookup_token [of env "run_plain env (ApiGet (quote env ''/'' (relpath (os_path_join d f))))"]
    by (simp add: map_of_gh_put_fields)
  have l1: "lookup_token env TimeoutExpired = None"
    by (simp add: lookup_token_def)
  have l2: "lookup_token env (Completed c) = None" if "returncode c \<noteq> 0"
    using that by (simp add: lookup_token_def)
  have l3: "lookup_token env (Completed c) = Some t"
    if "returncode c = 0 \<and> json_loads env (stdout c) = Some (PDict kvs')
        \<and> map_of kvs' ''sha'' = Some t \<and> truthy t"
    using that by (simp add: lookup_token_def)
  from curl gh l1 l2 l3 show ?thesis by blast
qed

theorem token_iff_lookup_witness:
  "\<not> curl_excluded (relpath (os_path_join ''.'' ''b.bin''))
   \<and> os_path_join ''.'' ''b.bin'' \<noteq> script_abspath ex_env
   \<and> read_file ex_env (os_path_join ''.'' ''b.bin'') = Inr [0xFF]
   \<and> (\<exists>payload. put_payloads (trace (curl_file ex_env ''gho_abc'' ''.'' init_state ''b.bin'')) = [payload]
         \<and> map_of payload ''sha'' = Some (PStr ''T1''))
   \<and> (\<exists>kvs. put_payloads (trace (gh_file ex_env ''.'' init_state ''b.bin'')) = [kvs]
         \<and> map_of kvs ''sha'' = Some (PStr ''T1''))
   \<and> \<not> curl_excluded (relpath (os_path_join ''./sub'' ''c.txt''))
   \<and> read_file ex_env (os_path_join ''./sub'' ''c.txt'') = Inr [0xFF]
   \<and> (\<exists>payload. put_payloads (trace (curl_file ex_env ''gho_abc'' ''./sub'' init_state ''c.txt'')) = [payload]
         \<and> map_of payload ''sha'' = None)"
proof -
  have h1: "\<not> curl_excluded (relpath (os_path_join ''.'' ''b.bin''))" by code_simp
  have h2: "os_path_join ''.'' ''b.bin'' \<noteq> script_abspath ex_env" by code_simp
  have h3: "read_file ex_env (os_path_join ''.'' ''b.bin'') = Inr [0xFF]" by code_simp
  have h4: "\<not> curl_excluded (relpath (os_path_join ''./sub'' ''c.txt''))" by code_simp
  have h5: "read_file ex_env (os_path_join ''./sub'' ''c.txt'') = Inr [0xFF]" by code_simp
  have e: "put_payloads (trace init_state) = []" by code_simp
  have t1: "lookup_token ex_env
      (run_timeout ex_env (ApiGet (quote ex_env ''/'' (relpath (os_path_join ''.'' ''b.bin'')))) 60)
      = Some (PStr ''T1'')"
    by code_simp
  have t2: "lookup_token ex_env
      (Completed (run_plain ex_env (ApiGet (quote ex_env ''/'' (relpath (os_path_join ''.'' ''b.bin''))))))
      = Some (PStr ''T1'')"
    by code_simp
  have t3: "lookup_token ex_env
      (run_timeout ex_env (ApiGet (quote ex_env ''/'' (relpath (os_path_join ''./sub'' ''c.txt'')))) 60)
      = None"
    by code_simp
  note a = token_iff_lookup [of "''.''" "''b.bin''" ex_env "[0xFF]" "''gho_abc''" init_state,
      unfolded t1 t2 e append_Nil]
  note b = token_iff_lookup [of "''./sub''" "''c.txt''" ex_env "[0xFF]" "''gho_abc''" init_state,
      unfolded t3 e append_Nil]
  from a h1 h2 h3 have c1: "\<exists>payload. put_payloads (trace (curl_file ex_env ''gho_abc'' ''.'' init_state ''b.bin'')) = [payload]
         \<and> map_of payload ''sha'' = Some (PStr ''T1'')"
    by blast
  from a h1 h2 h3 have c2: "\<exists>kvs. put_payloads (trace (gh_file ex_env ''.'' init_state ''b.bin'')) = [kvs]
         \<and> map_of kvs ''sha'' = Some (PStr ''T1'')"
    by blast
  from b h4 h5 have c3: "\<exists>payload. put_payloads (trace (curl_file ex_env ''gho_abc'' ''./sub'' init_state ''c.txt'')) = [payload]
         \<and> map_of payload ''sha'' = None"
    by blast
  from h1 h2 h3 h4 h5 c1 c2 c3 show ?thesis by blast
qed


lemma falsy_sha:
  assumes "returncode c = 0" "json_loads env (stdout c) = Some (PDict kvs)"
    and "map_of kvs ''sha'' = Some (PStr []) \<or> map_of kvs ''sha'' = Some PNone
         \<or> map_of kvs ''sha'' = None"
  shows "\<not> truthy (curl_sha env c)" and "\<not> truthy (gh_sha env c)"
proof -
  show "\<not> truthy (curl_sha env c)"
    using assms by (auto simp: curl_sha_def)
  have "(if truthy (gh_sha env c) then Some (gh_sha env c) else None) = None"
    unfolding gh_sha_lookup_token using assms by (auto simp: lookup_token_def)
  then show "\<not> truthy (gh_sha env c)"
    by (simp split: if_splits)
qed

lemma failed_lookup_sha:
  assumes "returncode c \<noteq> 0"
  shows "curl_sha env c = PNone" and "gh_sha env c = PNone"
  using assms by (simp_all add: curl_sha_def gh_sha_def)

text \<open>
  C9: the payload of the PUT has the field \<open>sha\<close> if and only if the value taken from the
  lookup's answer is true for Python's \<open>if sha:\<close>.  An answer whose \<open>sha\<close> is the empty
  string or \<open>null\<close> gives a value that is not true, as a failed lookup does, so the
  request is a create-style one without the field.  This holds for both scripts.
\<close>

theorem sha_field_iff_truthy:
  "(\<not> curl_excluded (relpath (os_path_join d f)) \<and> read_file env (os_path_join d f) = Inr b \<longrightarrow>
      (\<exists>payload. put_payloads (trace (curl_file env tok d st f)) = put_payloads (trace st) @ [payload]
         \<and> (''sha'' \<in> fst ` set payload \<longleftrightarrow>
              truthy (curl_sha env
                (fst (curl_gh_get env (quote env ''/'' (relpath (os_path_join d f))) st))))))
   \<and> (os_path_join d f \<noteq> script_abspath env \<and> read_file env (os_path_join d f) = Inr b \<longrightarrow>
      (\<exists>kvs. put_payloads (trace (gh_file env d st f)) = put_payloads (trace st) @ [kvs]
         \<and> (''sha'' \<in> fst ` set kvs \<longleftrightarrow>
              truthy (gh_sha env
                (run_plain env (ApiGet (quote env ''/'' (relpath (os_path_join d f)))))))))
   \<and> (returncode c = 0 \<and> json_loads env (stdout c) = Some (PDict kvs')
        \<and> (map_of kvs' ''sha'' = Some (PStr []) \<or> map_of kvs' ''sha'' = Some PNone) \<longrightarrow>
      \<not> truthy (curl_sha env c) \<and> \<not> truthy (gh_sha env c))
   \<and> (returncode c \<noteq> 0 \<longrightarrow> \<not> truthy (curl_sha env c) \<and> \<not> truthy (gh_sha env c))"
proof -
  have curl: "\<exists>payload. put_payloads (trace (curl_file env tok d st f)) = put_payloads (trace st) @ [payload]
         \<and> (''sha'' \<in> fst ` set payload \<longleftrightarrow>
              truthy (curl_sha env
                (fst (curl_gh_get env (quote env ''/'' (relpath (os_path_join d f))) st))))"
    if "\<not> curl_excluded (relpath (os_path_join d f))" "read_file env (os_path_join d f) = Inr b"
    using curl_file_put [OF that, of tok st] by (simp add: sha_key_curl_payload)
  have gh: "\<exists>kvs. put_payloads (trace (gh_file env d st f)) = put_payloads (trace st) @ [kvs]
         \<and> (''sha'' \<in> fst ` set kvs \<longleftrightarrow>
              truthy (gh_sha env
                (run_plain env (ApiGet (quote env ''/'' (relpath (os_path_join d f)))))))"
    if "os_path_join d f \<noteq> script_abspath env" "read_file env (os_path_join d f) = Inr b"
    using gh_file_put [OF that, of st] by (simp add: sha_key_gh_put_fields)
  have e: "\<not> truthy (curl_sha env c) \<and> \<not> truthy (gh_sha env c)"
    if "returncode c = 0 \<and> json_loads env (stdout c) = Some (PDict kvs')
        \<and> (map_of kvs' ''sha'' = Some (PStr []) \<or> map_of kvs' ''sha'' = Some PNone)"
    using falsy_sha [of c env kvs'] that by blast
  have n: "\<not> truthy (curl_sha env c) \<and> \<not> truthy (gh_sha env c)" if "returncode c \<noteq> 0"
    using failed_lookup_sha [OF that, of env] by simp
  from curl gh e n show ?thesis by blast
qed

theorem sha_field_iff_truthy_witness:
  "\<not> curl_excluded (relpath (os_path_join ''.'' ''b.bin''))
   \<and> os_path_join ''.'' ''b.bin'' \<noteq> script_abspath (ex_env\<lparr>json_loads := \<lambda>s. Some (PDict [(''sha'', PStr [])])\<rparr>)
   \<and> read_file (ex_env\<lparr>json_loads := \<lambda>s. Some (PDict [(''sha'', PStr [])])\<rparr>) (os_path_join ''.'' ''b.bin'')
       = Inr [0xFF]
   \<and> (\<exists>payload. put_payloads (trace (curl_file (ex_env\<lparr>json_loads := \<lambda>s. Some (PDict [(''sha'', PStr [])])\<rparr>)
                     ''gho_abc'' ''.'' init_state ''b.bin'')) = [payload]
         \<and> ''sha'' \<notin> fst ` set payload)
   \<and> (\<exists>kvs. put_payloads (trace (gh_file (ex_env\<lparr>json_loads := \<lambda>s. Some (PDict [(''sha'', PStr [])])\<rparr>)
                     ''.'' init_state ''b.bin'')) = [kvs]
         \<and> ''sha'' \<notin> fst ` set kvs)
   \<and> (\<exists>payload. put_payloads (trace (curl_file ex_env ''gho_abc'' ''.'' init_state ''b.bin'')) = [payload]
         \<and> ''sha'' \<in> fst ` set payload)"
proof -
  let ?env = "ex_env\<lparr>json_loads := \<lambda>s. Some (PDict [(''sha'', PStr [])])\<rparr>"
  have h1: "\<not> curl_excluded (relpath (os_path_join ''.'' ''b.bin''))" by code_simp
  have h2: "os_path_join ''.'' ''b.bin'' \<noteq> script_abspath ?env" by code_simp
  have h3: "read_file ?env (os_path_join ''.'' ''b.bin'') = Inr [0xFF]" by code_simp
  have h2': "os_path_join ''.'' ''b.bin'' \<noteq> script_abspath ex_env" by code_simp
  have h3': "read_file ex_env (os_path_join ''.'' ''b.bin'') = Inr [0xFF]" by code_simp
  have e: "put_payloads (trace init_state) = []" by code_simp
  have t1: "truthy (curl_sha ?env
      (fst (curl_gh_get ?env (quote ?env ''/'' (relpath (os_path_join ''.'' ''b.bin''))) init_state)))
      = False"
    by code_simp
  have t2: "truthy (gh_sha ?env
      (run_plain ?env (ApiGet (quote ?env ''/'' (relpath (os_path_join ''.'' ''b.bin''))))))
      = False"
    by code_simp
  have t3: "truthy (curl_sha ex_env
      (fst (curl_gh_get ex_env (quote ex_env ''/'' (relpath (os_path_join ''.'' ''b.bin''))) init_state)))
      = True"
    by code_simp
  note a = sha_field_iff_truthy [of "''.''" "''b.bin''" ?env "[0xFF]" "''gho_abc''" init_state,
      unfolded t1 t2 e append_Nil]
  note b = sha_field_iff_truthy [of "''.''" "''b.bin''" ex_env "[0xFF]" "''gho_abc''" init_state,
      unfolded t3 e append_Nil]
  from a h1 h2 h3 have c1: "\<exists>payload. put_payloads (trace (curl_file ?env ''gho_abc'' ''.'' init_state ''b.bin'')) = [payload]
         \<and> ''sha'' \<notin> fst ` set payload"
    by blast
  from a h1 h2 h3 have c2: "\<exists>kvs. put_payloads (trace (gh_file ?env ''.'' init_state ''b.bin'')) = [kvs]
         \<and> ''sha'' \<notin> fst ` set kvs"
    by blast
  from b h1 h2' h3' have c3: "\<exists>payload. put_payloads (trace (curl_file ex_env ''gho_abc'' ''.'' init_state ''b.bin'')) = [payload]
         \<and> ''sha'' \<in> fst ` set payload"
    by blast
  from h1 h2 h3 c1 c2 c3 show ?thesis by blast
qed

subsection \<open>The lookup comes before the write\<close>

lemma curl_iter_order:
  "lookup_before_put (quote env ''/'' (relpath (os_path_join d f))) False
     (trace (curl_iter env tok (d, f)))"
proof (cases "curl_excluded (relpath (os_path_join d f))")
  case True
  then show ?thesis by (simp add: curl_iter_excluded init_state_def)
next
  case False
  show ?thesis
    using curl_iter_shape [OF False, of env tok] by auto
qed

lemma gh_iter_order:
  "lookup_before_put (quote env ''/'' (relpath (os_path_join d f))) False
     (trace (gh_iter env (d, f)))"
proof (cases "os_path_join d f = script_abspath env")
  case True
  then show ?thesis by (simp add: gh_iter_script init_state_def)
next
  case False
  show ?thesis
    by (simp add: gh_iter_unfold [OF False] Let_def split: sum.splits)
qed

lemma curl_iter_put_target:
  assumes "e \<in> set (trace (curl_iter env tok (d, f)))" "is_put e"
  shows "\<exists>payload. e = Run (CurlPut tok payload (curl_url env (relpath (os_path_join d f)))) (Some 120)"
proof (cases "curl_excluded (relpath (os_path_join d f))")
  case True
  with assms show ?thesis by (simp add: curl_iter_excluded init_state_def)
next
  case False
  show ?thesis
    using curl_iter_shape [OF False, of env tok] assms by auto
qed

lemma gh_iter_put_target:
  assumes "e \<in> set (trace (gh_iter env (d, f)))" "is_put e"
  shows "\<exists>kvs. e = Run (ApiPut (quote env ''/'' (relpath (os_path_join d f))) kvs) None"
proof (cases "os_path_join d f = script_abspath env")
  case True
  with assms show ?thesis by (simp add: gh_iter_script init_state_def)
next
  case False
  show ?thesis
    using assms by (auto simp: gh_iter_unfold [OF False] Let_def split: sum.splits if_splits)
qed

lemma curl_loop_trace:
  "trace (curl_loop env tok tree)
     = concat (map (\<lambda>df. trace (curl_iter env tok df))
         (filter (\<lambda>df. \<not> curl_skipped df) (files_under ROOT tree)))"
  by (simp add: curl_loop_fold trace_foldl_state_add init_state_def comp_def)

lemma gh_loop_trace:
  "trace (gh_loop env tree) = concat (map (\<lambda>df. trace (gh_iter env df)) (gh_reached env tree))"
  by (simp add: gh_loop_fold trace_foldl_state_add init_state_def comp_def)

text \<open>
  C5: in the events of one iteration of the inner loop, every write request comes after
  a lookup of the same file's path, and it is a write of that file; the trace of the
  loops is the concatenation of the iterations of the files that are reached, so no
  file is ever uploaded without a lookup of it before, in its own iteration.  This holds
  for both scripts.  \<open>upload_via_curl.py\<close> reaches every file it does not skip;
  \<open>upload_via_gh.py\<close> reaches them up to the first whose write request raises, all of them
  when none does.
\<close>

theorem lookup_precedes_put:
  "lookup_before_put (quote env ''/'' (relpath (os_path_join (fst df) (snd df)))) False
     (trace (curl_iter env tok df))
   \<and> lookup_before_put (quote env ''/'' (relpath (os_path_join (fst df) (snd df)))) False
       (trace (gh_iter env df))
   \<and> (\<forall>e \<in> set (trace (curl_iter env tok df)). is_put e \<longrightarrow>
        (\<exists>payload. e = Run (CurlPut tok payload
                              (curl_url env (relpath (os_path_join (fst df) (snd df))))) (Some 120)))
   \<and> (\<forall>e \<in> set (trace (gh_iter env df)). is_put e \<longrightarrow>
        (\<exists>kvs. e = Run (ApiPut (quote env ''/'' (relpath (os_path_join (fst df) (snd df)))) kvs) None))
   \<and> trace (curl_loop env tok tree)
       = concat (map (\<lambda>df. trace (curl_iter env tok df))
           (filter (\<lambda>df. \<not> curl_skipped df) (files_under ROOT tree)))
   \<and> trace (gh_loop env tree)
       = concat (map (\<lambda>df. trace (gh_iter env df)) (gh_reached env tree))
   \<and> (gh_returns env tree \<longrightarrow>
        gh_reached env tree
          = filter (\<lambda>df. \<not> gh_skipped env df) (files_under ROOT tree))"
proof -
  obtain d f where df: "df = (d, f)" by (cases df)
  show ?thesis
    unfolding df fst_conv snd_conv
    using curl_iter_order [of env d f tok] gh_iter_order [of env d f]
      curl_iter_put_target [of _ env tok d f] gh_iter_put_target [of _ env d f]
      curl_loop_trace [of env tok tree] gh_loop_trace [of env tree]
      gh_reached_all [of env tree]
    by blast
qed

theorem lookup_precedes_put_witness:
  "trace (curl_iter ex_env ''gho_abc'' (''./sub'', ''c.txt''))
     = [Run (ApiGet ''sub/c.txt'') (Some 60), Print (LineGetTimeout ''sub/c.txt''),
        Open ''./sub/c.txt'',
        Run (CurlPut ''gho_abc''
              [(''message'', PStr ''chore: add sub/c.txt via API''), (''content'', PStr ''/w=='')]
              ''https://api.github.com/repos/dahemar/baptiste2/contents/sub/c.txt'') (Some 120),
        Print (LineFail ''sub/c.txt'' ''curl timeout'')]
   \<and> lookup_before_put ''sub/c.txt'' False (trace (curl_iter ex_env ''gho_abc'' (''./sub'', ''c.txt'')))
   \<and> lookup_before_put ''sub/c.txt'' False (trace (gh_iter ex_env (''./sub'', ''c.txt'')))
   \<and> \<not> lookup_before_put ''sub/c.txt'' False
         [Open ''./sub/c.txt'', Run (ApiPut ''sub/c.txt'' []) None,
          Run (ApiGet ''sub/c.txt'') None]"
proof -
  have q: "quote ex_env ''/'' (relpath (os_path_join (fst (''./sub'', ''c.txt'')) (snd (''./sub'', ''c.txt''))))
      = ''sub/c.txt''"
    by code_simp
  have t: "trace (curl_iter ex_env ''gho_abc'' (''./sub'', ''c.txt''))
     = [Run (ApiGet ''sub/c.txt'') (Some 60), Print (LineGetTimeout ''sub/c.txt''),
        Open ''./sub/c.txt'',
        Run (CurlPut ''gho_abc''
              [(''message'', PStr ''chore: add sub/c.txt via API''), (''content'', PStr ''/w=='')]
              ''https://api.github.com/repos/dahemar/baptiste2/contents/sub/c.txt'') (Some 120),
        Print (LineFail ''sub/c.txt'' ''curl timeout'')]"
    by code_simp
  have n: "\<not> lookup_before_put ''sub/c.txt'' False
         [Open ''./sub/c.txt'', Run (ApiPut ''sub/c.txt'' []) None,
          Run (ApiGet ''sub/c.txt'') None]"
    by code_simp
  note inst = lookup_precedes_put [of ex_env "(''./sub'', ''c.txt'')" "''gho_abc''" ex_tree,
      unfolded q]
  from inst have c1: "lookup_before_put ''sub/c.txt'' False
      (trace (curl_iter ex_env ''gho_abc'' (''./sub'', ''c.txt'')))"
    by (rule conjunct1)
  from inst have c2: "lookup_before_put ''sub/c.txt'' False
      (trace (gh_iter ex_env (''./sub'', ''c.txt'')))"
    by blast
  from t c1 c2 n show ?thesis by blast
qed

subsection \<open>Enumeration and exclusions\<close>



















subsection \<open>The authentication helper and the timeouts\<close>

lemma filter_concat_empty:
  assumes "\<And>xs. xs \<in> set xss \<Longrightarrow> filter P xs = []"
  shows "filter P (concat xss) = []"
  using assms by (induction xss) simp_all

lemma all_concat:
  assumes "\<And>xs. xs \<in> set xss \<Longrightarrow> \<forall>e \<in> set xs. P e"
  shows "\<forall>e \<in> set (concat xss). P e"
  using assms by auto

lemma curl_iter_events:
  "filter is_auth (trace (curl_iter env tok (d, f))) = []"
  "\<forall>e \<in> set (trace (curl_iter env tok (d, f))). curl_timeout_ok e"
proof -
  show "filter is_auth (trace (curl_iter env tok (d, f))) = []"
  proof (cases "curl_excluded (relpath (os_path_join d f))")
    case True
    then show ?thesis by (simp add: curl_iter_excluded init_state_def)
  next
    case False
    show ?thesis using curl_iter_shape [OF False, of env tok] by auto
  qed
  show "\<forall>e \<in> set (trace (curl_iter env tok (d, f))). curl_timeout_ok e"
  proof (cases "curl_excluded (relpath (os_path_join d f))")
    case True
    then show ?thesis by (simp add: curl_iter_excluded init_state_def)
  next
    case False
    show ?thesis using curl_iter_shape [OF False, of env tok] by auto
  qed
qed

lemma gh_iter_events:
  "filter is_auth (trace (gh_iter env (d, f))) = []"
  "\<forall>e \<in> set (trace (gh_iter env (d, f))). no_timeout e"
proof -
  show "filter is_auth (trace (gh_iter env (d, f))) = []"
  proof (cases "os_path_join d f = script_abspath env")
    case True
    then show ?thesis by (simp add: gh_iter_script init_state_def)
  next
    case False
    show ?thesis by (simp add: gh_iter_unfold [OF False] Let_def split: sum.splits if_splits)
  qed
  show "\<forall>e \<in> set (trace (gh_iter env (d, f))). no_timeout e"
  proof (cases "os_path_join d f = script_abspath env")
    case True
    then show ?thesis by (simp add: gh_iter_script init_state_def)
  next
    case False
    show ?thesis by (simp add: gh_iter_unfold [OF False] Let_def split: sum.splits if_splits)
  qed
qed

lemma curl_loop_events:
  "filter is_auth (trace (curl_loop env tok tree)) = []"
  "\<forall>e \<in> set (trace (curl_loop env tok tree)). curl_timeout_ok e"
proof -
  show "filter is_auth (trace (curl_loop env tok tree)) = []"
    unfolding curl_loop_trace
    by (rule filter_concat_empty) (auto simp: curl_iter_events(1))
  show "\<forall>e \<in> set (trace (curl_loop env tok tree)). curl_timeout_ok e"
    unfolding curl_loop_trace
    by (rule all_concat) (auto simp: curl_iter_events(2))
qed

lemma gh_loop_events:
  "filter is_auth (trace (gh_loop env tree)) = []"
  "\<forall>e \<in> set (trace (gh_loop env tree)). no_timeout e"
proof -
  show "filter is_auth (trace (gh_loop env tree)) = []"
    unfolding gh_loop_trace
    by (rule filter_concat_empty) (auto simp: gh_iter_events(1))
  show "\<forall>e \<in> set (trace (gh_loop env tree)). no_timeout e"
    unfolding gh_loop_trace
    by (rule all_concat) (auto simp: gh_iter_events(2))
qed


text \<open>
  C7, as stated, fails for \<open>upload_via_gh.py\<close>: its run on the sample tree never runs the
  authentication helper and issues five write requests, and it does the same in an
  environment where the helper would fail.
\<close>

theorem auth_helper_counterexample:
  "filter is_auth (events (gh_main ex_env ex_tree)) = []
   \<and> length (filter is_put (events (gh_main ex_env ex_tree))) = 5
   \<and> fst (get_token (ex_env\<lparr>run_timeout := \<lambda>c t. TimeoutExpired\<rparr>)) = Inl 2
   \<and> length (filter is_put (events (gh_main (ex_env\<lparr>run_timeout := \<lambda>c t. TimeoutExpired\<rparr>) ex_tree))) = 5"
  by code_simp

text \<open>
  C7, amended: \<open>upload_via_curl.py\<close> runs the authentication helper exactly once, as the
  first event of the run, with a timeout of 10 seconds; when it times out or ends with a
  status other than 0, the run is that call and one error line, with exit status 2: no
  file is looked up, read or written.  Otherwise the stripped output is the token and
  the loops follow.  \<open>upload_via_gh.py\<close> never runs the helper.
\<close>

theorem auth_helper_once:
  "(\<exists>rest. events (curl_main env tree) = Run AuthToken (Some 10) # rest \<and> filter is_auth rest = [])
   \<and> (run_timeout env AuthToken 10 = TimeoutExpired \<longrightarrow>
        curl_main env tree
          = \<lparr>events = [Run AuthToken (Some 10),
                       Print (LineTokenError ''Could not get gh token: timeout'')],
             exit_code = 2\<rparr>)
   \<and> (run_timeout env AuthToken 10 = Completed p \<and> returncode p \<noteq> 0 \<longrightarrow>
        curl_main env tree
          = \<lparr>events = [Run AuthToken (Some 10), Print (LineTokenError ''Could not get gh token'')],
             exit_code = 2\<rparr>)
   \<and> (run_timeout env AuthToken 10 = Completed p \<and> returncode p = 0 \<longrightarrow>
        events (curl_main env tree)
          = Run AuthToken (Some 10) # trace (curl_loop env (strip env (stdout p)) tree)
            @ [Print (LineDone (success (curl_loop env (strip env (stdout p)) tree))
                               (errors (curl_loop env (strip env (stdout p)) tree)))])
   \<and> filter is_auth (events (gh_main env tree)) = []"
proof -
  have a: "\<exists>rest. events (curl_main env tree) = Run AuthToken (Some 10) # rest \<and> filter is_auth rest = []"
    by (cases "run_timeout env AuthToken 10")
      (simp_all add: curl_main_def get_token_def Let_def curl_loop_events(1))
  have b: "curl_main env tree
          = \<lparr>events = [Run AuthToken (Some 10),
                       Print (LineTokenError ''Could not get gh token: timeout'')],
             exit_code = 2\<rparr>"
    if "run_timeout env AuthToken 10 = TimeoutExpired"
    using that by (simp add: curl_main_def get_token_def)
  have c: "curl_main env tree
          = \<lparr>events = [Run AuthToken (Some 10), Print (LineTokenError ''Could not get gh token'')],
             exit_code = 2\<rparr>"
    if "run_timeout env AuthToken 10 = Completed p \<and> returncode p \<noteq> 0"
    using that by (simp add: curl_main_def get_token_def)
  have d: "events (curl_main env tree)
          = Run AuthToken (Some 10) # trace (curl_loop env (strip env (stdout p)) tree)
            @ [Print (LineDone (success (curl_loop env (strip env (stdout p)) tree))
                               (errors (curl_loop env (strip env (stdout p)) tree)))]"
    if "run_timeout env AuthToken 10 = Completed p \<and> returncode p = 0"
    using that by (simp add: curl_main_def get_token_def Let_def)
  have e: "filter is_auth (events (gh_main env tree)) = []"
    by (simp add: gh_main_def Let_def gh_loop_events(1) split: option.splits)
  from a b c d e show ?thesis by blast
qed

theorem auth_helper_once_witness:
  "run_timeout (ex_env\<lparr>run_timeout := \<lambda>c t. TimeoutExpired\<rparr>) AuthToken 10 = TimeoutExpired
   \<and> curl_main (ex_env\<lparr>run_timeout := \<lambda>c t. TimeoutExpired\<rparr>) ex_tree
       = \<lparr>events = [Run AuthToken (Some 10),
                    Print (LineTokenError ''Could not get gh token: timeout'')],
          exit_code = 2\<rparr>
   \<and> (\<exists>rest. events (curl_main ex_env ex_tree) = Run AuthToken (Some 10) # rest
         \<and> filter is_auth rest = [])"
proof -
  let ?env = "ex_env\<lparr>run_timeout := \<lambda>c t. TimeoutExpired\<rparr>"
  have h: "run_timeout ?env AuthToken 10 = TimeoutExpired" by code_simp
  note a = auth_helper_once [of ?env ex_tree]
  note b = auth_helper_once [of ex_env ex_tree]
  from a h have c1: "curl_main ?env ex_tree
       = \<lparr>events = [Run AuthToken (Some 10),
                    Print (LineTokenError ''Could not get gh token: timeout'')],
          exit_code = 2\<rparr>"
    by blast
  from b have c2: "\<exists>rest. events (curl_main ex_env ex_tree) = Run AuthToken (Some 10) # rest
         \<and> filter is_auth rest = []"
    by blast
  from h c1 c2 show ?thesis by blast
qed

text \<open>
  C8, as stated, fails for \<open>upload_via_gh.py\<close>: in its run on the sample tree the lookup
  and the write of \<open>a.txt\<close> are calls without a timeout.
\<close>

theorem timeouts_counterexample:
  "Run (ApiGet ''a.txt'') None \<in> set (events (gh_main ex_env ex_tree))
   \<and> \<not> has_timeout (Run (ApiGet ''a.txt'') None)
   \<and> Run (ApiPut ''a.txt''
           [(''message'', PStr ''chore: add a.txt via API''), (''content'', PStr ''aGk='')]) None
       \<in> set (events (gh_main ex_env ex_tree))
   \<and> \<not> has_timeout (Run (ApiPut ''a.txt''
           [(''message'', PStr ''chore: add a.txt via API''), (''content'', PStr ''aGk='')]) None)"
  unfolding ex_gh_run by simp

text \<open>
  C8, amended: in \<open>upload_via_curl.py\<close> every process call has a timeout: 10 seconds for
  the token, 60 for a lookup, 120 for a write, so a lookup's is shorter than a write's.
  A lookup that times out leaves \<open>sha\<close> at \<open>None\<close> and both counters as they were (the
  write goes on without a token); a write that times out counts one error for its file.
  What the iteration of a file adds to the state does not depend on the state the
  earlier files left.  In \<open>upload_via_gh.py\<close> no call has a timeout.
\<close>

theorem timeouts_by_script:
  "(\<forall>e \<in> set (events (curl_main env tree)). curl_timeout_ok e \<and> has_timeout e)
   \<and> (curl_timeout_ok (Run (ApiGet path) (Some a)) \<and> curl_timeout_ok (Run (CurlPut tok payload url) (Some b))
        \<longrightarrow> a < b)
   \<and> (run_timeout env (ApiGet api) 60 = TimeoutExpired \<longrightarrow>
        curl_sha env (fst (curl_gh_get env api st)) = PNone
        \<and> success (snd (curl_gh_get env api st)) = success st
        \<and> errors (snd (curl_gh_get env api st)) = errors st)
   \<and> (run_timeout env (CurlPut tok payload (curl_url env rel)) 120 = TimeoutExpired \<longrightarrow>
        curl_put env tok rel payload st
          = inc_errors (emit [Run (CurlPut tok payload (curl_url env rel)) (Some 120),
                              Print (LineFail rel ''curl timeout'')] st))
   \<and> curl_file env tok d st f = state_add st (curl_iter env tok (d, f))
   \<and> (\<forall>e \<in> set (events (gh_main env tree)). no_timeout e)"
proof -
  have ok: "curl_timeout_ok e \<Longrightarrow> has_timeout e" for e
    by (cases e rule: curl_timeout_ok.cases) simp_all
  have a: "\<forall>e \<in> set (events (curl_main env tree)). curl_timeout_ok e"
    using curl_loop_events(2) [of env _ tree]
    by (cases "run_timeout env AuthToken 10")
      (auto simp: curl_main_def get_token_def Let_def)
  have a': "\<forall>e \<in> set (events (curl_main env tree)). curl_timeout_ok e \<and> has_timeout e"
    using a ok by blast
  have b: "a < b" if "curl_timeout_ok (Run (ApiGet path) (Some a))
      \<and> curl_timeout_ok (Run (CurlPut tok payload url) (Some b))"
    using that by simp
  have c: "curl_sha env (fst (curl_gh_get env api st)) = PNone
        \<and> success (snd (curl_gh_get env api st)) = success st
        \<and> errors (snd (curl_gh_get env api st)) = errors st"
    if "run_timeout env (ApiGet api) 60 = TimeoutExpired"
    using that by (simp add: curl_gh_get_def curl_sha_def emit_def)
  have d: "curl_put env tok rel payload st
          = inc_errors (emit [Run (CurlPut tok payload (curl_url env rel)) (Some 120),
                              Print (LineFail rel ''curl timeout'')] st)"
    if "run_timeout env (CurlPut tok payload (curl_url env rel)) 120 = TimeoutExpired"
    using that by (simp add: curl_put_def Let_def)
  have e: "\<forall>e \<in> set (events (gh_main env tree)). no_timeout e"
    using gh_loop_events(2) [of env tree] by (simp add: gh_main_def Let_def split: option.splits)
  from a' b c d e curl_file_frame [of env tok d st f] show ?thesis by blast
qed

theorem timeouts_by_script_witness:
  "run_timeout ex_env (ApiGet ''sub/c.txt'') 60 = TimeoutExpired
   \<and> curl_sha ex_env (fst (curl_gh_get ex_env ''sub/c.txt'' init_state)) = PNone
   \<and> Run (ApiGet ''sub/c.txt'') (Some 60) \<in> set (events (curl_main ex_env ex_tree))
   \<and> curl_timeout_ok (Run (ApiGet ''sub/c.txt'') (Some 60))
   \<and> has_timeout (Run (ApiGet ''sub/c.txt'') (Some 60))
   \<and> curl_timeout_ok (Run (ApiGet ''sub/c.txt'') (Some 60))
   \<and> curl_timeout_ok (Run (CurlPut ''gho_abc'' [] ''u'') (Some 120))
   \<and> (60::nat) < 120"
proof -
  have h: "run_timeout ex_env (ApiGet ''sub/c.txt'') 60 = TimeoutExpired" by code_simp
  have m: "Run (ApiGet ''sub/c.txt'') (Some 60) \<in> set (events (curl_main ex_env ex_tree))"
    unfolding ex_curl_run by simp
  have k1: "curl_timeout_ok (Run (ApiGet ''sub/c.txt'') (Some 60))" by simp
  have k2: "curl_timeout_ok (Run (CurlPut ''gho_abc'' [] ''u'') (Some 120))" by simp
  note inst = timeouts_by_script [of ex_env ex_tree "''sub/c.txt''" 60 "''gho_abc''" "[]" "''u''" 120
      "''sub/c.txt''" init_state "''sub/c.txt''" "''./sub''" "''c.txt''"]
  from inst h have c1: "curl_sha ex_env (fst (curl_gh_get ex_env ''sub/c.txt'' init_state)) = PNone"
    by blast
  from inst m have c2: "curl_timeout_ok (Run (ApiGet ''sub/c.txt'') (Some 60))
      \<and> has_timeout (Run (ApiGet ''sub/c.txt'') (Some 60))"
    by blast
  from inst k1 k2 have c3: "(60::nat) < 120" by blast
  from h c1 m c2 k1 k2 c3 show ?thesis by blast
qed

subsection \<open>Success and failure of a write\<close>

text \<open>
  C2, as stated, fails.  In \<open>upload_via_gh.py\<close> the write of \<open>a.txt\<close> in the sample run is
  answered with status 0 and a body without the marker, and the file is counted as a
  success.  In \<open>upload_via_curl.py\<close> a body that is not JSON is recorded with the fixed
  text \<open>invalid response\<close>, not with the raw text.
\<close>

theorem success_marker_counterexample:
  \<open>run_plain ex_env (ApiPut ''a.txt''
       [(''message'', PStr ''chore: add a.txt via API''), (''content'', PStr ''aGk='')])
     = \<lparr>returncode = 0, stdout = ''{"message":"Conflict"}'', stderr = []\<rparr>
   \<and> \<not> has_marker ex_env ''{"message":"Conflict"}''
   \<and> trace (gh_iter ex_env (''.'', ''a.txt''))
       = [Open ''./a.txt'', Run (ApiGet ''a.txt'') None,
          Run (ApiPut ''a.txt''
            [(''message'', PStr ''chore: add a.txt via API''), (''content'', PStr ''aGk='')]) None,
          Print (LineOk ''a.txt'')]
   \<and> success (gh_iter ex_env (''.'', ''a.txt'')) = 1
   \<and> run_timeout (ex_env\<lparr>run_timeout := \<lambda>c t. Completed
          \<lparr>returncode = 0, stdout = ''<html>Bad Gateway</html>'', stderr = []\<rparr>\<rparr>)
        (CurlPut ''gho_abc'' [] (curl_url ex_env ''a.txt'')) 120
       = Completed \<lparr>returncode = 0, stdout = ''<html>Bad Gateway</html>'', stderr = []\<rparr>
   \<and> trace (curl_put (ex_env\<lparr>run_timeout := \<lambda>c t. Completed
          \<lparr>returncode = 0, stdout = ''<html>Bad Gateway</html>'', stderr = []\<rparr>\<rparr>)
          ''gho_abc'' ''a.txt'' [] init_state)
       = [Run (CurlPut ''gho_abc'' []
             ''https://api.github.com/repos/dahemar/baptiste2/contents/a.txt'') (Some 120),
          Print (LineFail ''a.txt'' ''invalid response'')]\<close>
  by code_simp

lemma curl_put_cases:
  fixes env tok rel payload st
  defines "cmd \<equiv> CurlPut tok payload (curl_url env rel)"
  shows "run_timeout env cmd 120 = TimeoutExpired \<Longrightarrow>
      curl_put env tok rel payload st
        = inc_errors (emit [Run cmd (Some 120), Print (LineFail rel ''curl timeout'')] st)"
    and "run_timeout env cmd 120 = Completed q \<Longrightarrow> returncode q \<noteq> 0 \<Longrightarrow>
      curl_put env tok rel payload st
        = inc_errors (emit [Run cmd (Some 120), Print (LineFail rel (strip env (stderr q)))] st)"
    and "run_timeout env cmd 120 = Completed q \<Longrightarrow> returncode q = 0 \<Longrightarrow>
      json_loads env (stdout q) = None \<Longrightarrow>
      curl_put env tok rel payload st
        = inc_errors (emit [Run cmd (Some 120), Print (LineFail rel ''invalid response'')] st)"
    and "run_timeout env cmd 120 = Completed q \<Longrightarrow> returncode q = 0 \<Longrightarrow>
      json_loads env (stdout q) = Some (PDict kvs) \<Longrightarrow> ''content'' \<in> fst ` set kvs \<Longrightarrow>
      curl_put env tok rel payload st
        = inc_success (emit [Run cmd (Some 120), Print (LineOk rel)] st)"
    and "run_timeout env cmd 120 = Completed q \<Longrightarrow> returncode q = 0 \<Longrightarrow>
      json_loads env (stdout q) = Some (PDict kvs) \<Longrightarrow> ''content'' \<notin> fst ` set kvs \<Longrightarrow>
      curl_put env tok rel payload st
        = inc_errors (emit [Run cmd (Some 120), Print (LineFail rel (strip env (stdout q)))] st)"
  unfolding cmd_def by (simp_all add: curl_put_def Let_def)

lemma curl_put_ok_iff:
  "last (trace (curl_put env tok rel payload st)) = Print (LineOk rel)
   \<longleftrightarrow> (\<exists>q resp. run_timeout env (CurlPut tok payload (curl_url env rel)) 120 = Completed q
         \<and> returncode q = 0 \<and> json_loads env (stdout q) = Some resp
         \<and> py_in ''content'' resp = Inr True)"
  by (auto simp: curl_put_def Let_def inc_errors_def inc_success_def emit_def
      split: run_result.splits option.splits sum.splits bool.splits)


lemma gh_file_result:
  assumes "os_path_join d f \<noteq> script_abspath env" "read_file env (os_path_join d f) = Inr b"
  shows "let fp = os_path_join d f; rel = relpath fp; api = quote env ''/'' rel;
             cmd = ApiPut api (gh_put_fields (''chore: add '' @ rel @ '' via API'') (b64encode b)
                     (gh_sha env (run_plain env (ApiGet api))));
             q = run_plain env cmd
         in \<not> argv_refused env cmd \<longrightarrow>
            gh_file env d st f
            = (if returncode q = 0
               then inc_success (emit [Open fp, Run (ApiGet api) None, Run cmd None,
                                       Print (LineOk rel)] st)
               else inc_errors (emit [Open fp, Run (ApiGet api) None, Run cmd None,
                                      Print (LineFail rel (strip env (stderr q)))] st))"
  using assms(2)
  by (simp add: gh_file_frame gh_iter_unfold [OF assms(1)] Let_def state_ops)

text \<open>
  C2, amended: in \<open>upload_via_curl.py\<close> a write is a success exactly when curl ends with
  status 0, its output is JSON and \<open>'content' in resp\<close> holds, as it does for an object
  with a \<open>content\<close> field; a timeout is a failure with the text \<open>curl timeout\<close>, a status
  other than 0 with the stripped standard error, an output that is not JSON with the
  text \<open>invalid response\<close>, an object without the field with the stripped output.  In
  \<open>upload_via_gh.py\<close> a write whose process call returns is a success exactly when \<open>gh\<close>
  ends with status 0, whatever the body, and otherwise a failure with the stripped
  standard error.  Stripped is the result of \<open>str.strip()\<close>, a parameter of the model.
\<close>

theorem sync_result_by_script:
  "(last (trace (curl_put env tok rel payload st)) = Print (LineOk rel)
     \<longleftrightarrow> (\<exists>q resp. run_timeout env (CurlPut tok payload (curl_url env rel)) 120 = Completed q
           \<and> returncode q = 0 \<and> json_loads env (stdout q) = Some resp
           \<and> py_in ''content'' resp = Inr True))
   \<and> (run_timeout env (CurlPut tok payload (curl_url env rel)) 120 = Completed q
        \<and> returncode q = 0 \<and> has_marker env (stdout q) \<longrightarrow>
      curl_put env tok rel payload st
        = inc_success (emit [Run (CurlPut tok payload (curl_url env rel)) (Some 120),
                             Print (LineOk rel)] st))
   \<and> (run_timeout env (CurlPut tok payload (curl_url env rel)) 120 = TimeoutExpired \<longrightarrow>
      curl_put env tok rel payload st
        = inc_errors (emit [Run (CurlPut tok payload (curl_url env rel)) (Some 120),
                            Print (LineFail rel ''curl timeout'')] st))
   \<and> (run_timeout env (CurlPut tok payload (curl_url env rel)) 120 = Completed q
        \<and> returncode q \<noteq> 0 \<longrightarrow>
      curl_put env tok rel payload st
        = inc_errors (emit [Run (CurlPut tok payload (curl_url env rel)) (Some 120),
                            Print (LineFail rel (strip env (stderr q)))] st))
   \<and> (run_timeout env (CurlPut tok payload (curl_url env rel)) 120 = Completed q
        \<and> returncode q = 0 \<and> json_loads env (stdout q) = None \<longrightarrow>
      curl_put env tok rel payload st
        = inc_errors (emit [Run (CurlPut tok payload (curl_url env rel)) (Some 120),
                            Print (LineFail rel ''invalid response'')] st))
   \<and> (run_timeout env (CurlPut tok payload (curl_url env rel)) 120 = Completed q
        \<and> returncode q = 0 \<and> json_loads env (stdout q) = Some (PDict kvs)
        \<and> ''content'' \<notin> fst ` set kvs \<longrightarrow>
      curl_put env tok rel payload st
        = inc_errors (emit [Run (CurlPut tok payload (curl_url env rel)) (Some 120),
                            Print (LineFail rel (strip env (stdout q)))] st))
   \<and> (os_path_join d f \<noteq> script_abspath env \<and> read_file env (os_path_join d f) = Inr b \<longrightarrow>
      (let fp = os_path_join d f; rel = relpath fp; api = quote env ''/'' rel;
           cmd = ApiPut api (gh_put_fields (''chore: add '' @ rel @ '' via API'') (b64encode b)
                   (gh_sha env (run_plain env (ApiGet api))));
           q = run_plain env cmd
       in \<not> argv_refused env cmd \<longrightarrow>
          gh_file env d st f
          = (if returncode q = 0
             then inc_success (emit [Open fp, Run (ApiGet api) None, Run cmd None,
                                     Print (LineOk rel)] st)
             else inc_errors (emit [Open fp, Run (ApiGet api) None, Run cmd None,
                                    Print (LineFail rel (strip env (stderr q)))] st))))"
proof -
  have m: "curl_put env tok rel payload st
        = inc_success (emit [Run (CurlPut tok payload (curl_url env rel)) (Some 120),
                             Print (LineOk rel)] st)"
    if "run_timeout env (CurlPut tok payload (curl_url env rel)) 120 = Completed q
        \<and> returncode q = 0 \<and> has_marker env (stdout q)"
  proof -
    from that obtain kvs' where "json_loads env (stdout q) = Some (PDict kvs')"
      "''content'' \<in> fst ` set kvs'"
      by (auto simp: has_marker_def split: option.splits pyval.splits)
    with that show ?thesis using curl_put_cases(4) [of env tok payload rel q kvs' st] by simp
  qed
  from curl_put_ok_iff [of env tok rel payload st] m
    curl_put_cases(1) [of env tok payload rel st]
    curl_put_cases(2) [of env tok payload rel q st]
    curl_put_cases(3) [of env tok payload rel q st]
    curl_put_cases(5) [of env tok payload rel q kvs st]
    gh_file_result [of d f env b st]
  show ?thesis by blast
qed

theorem sync_result_by_script_witness:
  \<open>run_timeout ex_env (CurlPut ''gho_abc'' [] (curl_url ex_env ''a.txt'')) 120
     = Completed \<lparr>returncode = 0, stdout = ''{"content":{}}'', stderr = []\<rparr>
   \<and> returncode \<lparr>returncode = 0, stdout = ''{"content":{}}'', stderr = []\<rparr> = 0
   \<and> has_marker ex_env (stdout \<lparr>returncode = 0, stdout = ''{"content":{}}'', stderr = []\<rparr>)
   \<and> curl_put ex_env ''gho_abc'' ''a.txt'' [] init_state
       = inc_success (emit [Run (CurlPut ''gho_abc'' [] (curl_url ex_env ''a.txt'')) (Some 120),
                            Print (LineOk ''a.txt'')] init_state)
   \<and> run_timeout ex_env (CurlPut ''gho_abc'' [] (curl_url ex_env ''sub/c.txt'')) 120 = TimeoutExpired
   \<and> curl_put ex_env ''gho_abc'' ''sub/c.txt'' [] init_state
       = inc_errors (emit [Run (CurlPut ''gho_abc'' [] (curl_url ex_env ''sub/c.txt'')) (Some 120),
                           Print (LineFail ''sub/c.txt'' ''curl timeout'')] init_state)
   \<and> os_path_join ''.'' ''a.txt'' \<noteq> script_abspath ex_env
   \<and> read_file ex_env (os_path_join ''.'' ''a.txt'') = Inr [104, 105]
   \<and> \<not> argv_refused ex_env (ApiPut ''a.txt''
           [(''message'', PStr ''chore: add a.txt via API''), (''content'', PStr ''aGk='')])
   \<and> returncode (run_plain ex_env (ApiPut ''a.txt''
           [(''message'', PStr ''chore: add a.txt via API''), (''content'', PStr ''aGk='')])) = 0
   \<and> gh_file ex_env ''.'' init_state ''a.txt''
       = inc_success (emit [Open ''./a.txt'', Run (ApiGet ''a.txt'') None,
           Run (ApiPut ''a.txt''
             [(''message'', PStr ''chore: add a.txt via API''), (''content'', PStr ''aGk='')]) None,
           Print (LineOk ''a.txt'')] init_state)\<close>
proof -
  let ?cmd = "ApiPut ''a.txt''
      [(''message'', PStr ''chore: add a.txt via API''), (''content'', PStr ''aGk='')]"
  have g1: "os_path_join ''.'' ''a.txt'' \<noteq> script_abspath ex_env" by code_simp
  have g2: "read_file ex_env (os_path_join ''.'' ''a.txt'') = Inr [104, 105]" by code_simp
  have g3: "\<not> argv_refused ex_env ?cmd" by code_simp
  have g4: "returncode (run_plain ex_env ?cmd) = 0" by code_simp
  have e1: "os_path_join ''.'' ''a.txt'' = ''./a.txt''" by code_simp
  have e2: "relpath ''./a.txt'' = ''a.txt''" by code_simp
  have e3: "quote ex_env ''/'' ''a.txt'' = ''a.txt''" by code_simp
  have e4: "ApiPut ''a.txt'' (gh_put_fields (''chore: add '' @ ''a.txt'' @ '' via API'')
        (b64encode [104, 105]) (gh_sha ex_env (run_plain ex_env (ApiGet ''a.txt'')))) = ?cmd"
    by code_simp
  note c = sync_result_by_script [of ex_env "''gho_abc''" "''a.txt''" "[]" init_state _ _
      "''.''" "''a.txt''" "[104, 105]",
      unfolded Let_def e1 e2 e3 e4]
  from c g1 [unfolded e1] g2 [unfolded e1] g3 g4 have c3: "gh_file ex_env ''.'' init_state ''a.txt''
       = inc_success (emit [Open ''./a.txt'', Run (ApiGet ''a.txt'') None, Run ?cmd None,
           Print (LineOk ''a.txt'')] init_state)"
    by simp
  let ?q = \<open>\<lparr>returncode = 0, stdout = ''{"content":{}}'', stderr = []\<rparr>\<close>
  have h1: "run_timeout ex_env (CurlPut ''gho_abc'' [] (curl_url ex_env ''a.txt'')) 120 = Completed ?q"
    by code_simp
  have h2: "returncode ?q = 0" by simp
  have h3: "has_marker ex_env (stdout ?q)" by code_simp
  have h4: "run_timeout ex_env (CurlPut ''gho_abc'' [] (curl_url ex_env ''sub/c.txt'')) 120 = TimeoutExpired"
    by code_simp
  note a = sync_result_by_script [of ex_env "''gho_abc''" "''a.txt''" "[]" init_state ?q]
  note b = sync_result_by_script [of ex_env "''gho_abc''" "''sub/c.txt''" "[]" init_state]
  from a h1 h2 h3 have c1: "curl_put ex_env ''gho_abc'' ''a.txt'' [] init_state
       = inc_success (emit [Run (CurlPut ''gho_abc'' [] (curl_url ex_env ''a.txt'')) (Some 120),
                            Print (LineOk ''a.txt'')] init_state)"
    by blast
  from b h4 have c2: "curl_put ex_env ''gho_abc'' ''sub/c.txt'' [] init_state
       = inc_errors (emit [Run (CurlPut ''gho_abc'' [] (curl_url ex_env ''sub/c.txt'')) (Some 120),
                           Print (LineFail ''sub/c.txt'' ''curl timeout'')] init_state)"
    by blast
  from h1 h2 h3 c1 h4 c2 g1 g2 g3 g4 c3 show ?thesis by blast
qed

end
